theory Spec2Isabelle
  imports Main "HOL-Library.Sublist"
begin

section \<open>Text: Python strings as sequences of code points\<close>

text \<open>
  A Python \<open>str\<close> is a sequence of Unicode code points, and the script generator handles
  Devanagari text (the danda U+0964, zero-width characters, U+FFFD), so a text is a list of
  code points (integers) and not a list of bytes. ASCII literals are written with \<open>lit\<close>.
\<close>

type_synonym ustr = "int list"

definition lit :: "string \<Rightarrow> ustr" where
  "lit s = map of_char s"

text \<open>
  The whitespace of \<open>str.split()\<close>, \<open>str.strip()\<close> and of \<open>\s\<close> in a \<open>str\<close> pattern:
  the code points for which \<open>str.isspace\<close> holds.
\<close>

definition is_space :: "int \<Rightarrow> bool" where
  "is_space c \<longleftrightarrow>
     (9 \<le> c \<and> c \<le> 13) \<or> (28 \<le> c \<and> c \<le> 32) \<or> c = 133 \<or> c = 160 \<or> c = 5760 \<or>
     (8192 \<le> c \<and> c \<le> 8202) \<or> c = 8232 \<or> c = 8233 \<or> c = 8239 \<or> c = 8287 \<or> c = 12288"

text \<open>\<open>text.split()\<close>: the maximal runs of non-whitespace, in order.\<close>

fun pysplit :: "ustr \<Rightarrow> ustr list" where
  "pysplit [] = []"
| "pysplit (c # cs) =
     (if is_space c then pysplit cs
      else (case cs of
              [] \<Rightarrow> [[c]]
            | d # _ \<Rightarrow>
                if is_space d then [c] # pysplit cs
                else (case pysplit cs of [] \<Rightarrow> [[c]] | w # ws \<Rightarrow> (c # w) # ws)))"

text \<open>\<open>sep.join(parts)\<close>.\<close>

fun join_with :: "ustr \<Rightarrow> ustr list \<Rightarrow> ustr" where
  "join_with sep [] = []"
| "join_with sep [w] = w"
| "join_with sep (w # v # ws) = w @ sep @ join_with sep (v # ws)"

definition lstrip :: "ustr \<Rightarrow> ustr" where
  "lstrip s = dropWhile is_space s"

definition rstrip :: "ustr \<Rightarrow> ustr" where
  "rstrip s = rev (dropWhile is_space (rev s))"

definition strip :: "ustr \<Rightarrow> ustr" where
  "strip s = lstrip (rstrip s)"

text \<open>What \<open>split()\<close> returns are non-empty words without whitespace.\<close>

definition good_word :: "ustr \<Rightarrow> bool" where
  "good_word w \<longleftrightarrow> w \<noteq> [] \<and> (\<forall>c \<in> set w. \<not> is_space c)"

text \<open>
  The slice \<open>xs[:n]\<close> for a Python integer \<open>n\<close>: a negative \<open>n\<close> counts from the end.
  The slice \<open>xs[-80:]\<close> keeps the last 80 elements, or all of them.
\<close>

definition slice_to :: "int \<Rightarrow> 'a list \<Rightarrow> 'a list" where
  "slice_to n xs = (if 0 \<le> n then take (nat n) xs else take (length xs - nat (- n)) xs)"

definition last80 :: "'a list \<Rightarrow> 'a list" where
  "last80 xs = drop (length xs - 80) xs"

section \<open>Post-processor: truncation and the terminal boundary\<close>

text \<open>
  The class of the boundary pattern: full stop, exclamation mark, question mark, vertical
  bar and the danda U+0964; and the class that \<open>_ensure_sentence_boundary\<close> accepts at the
  end: the same without the vertical bar.
\<close>

definition is_boundary_mark :: "int \<Rightarrow> bool" where
  "is_boundary_mark c \<longleftrightarrow> c = 46 \<or> c = 33 \<or> c = 63 \<or> c = 124 \<or> c = 2404"

definition is_final_mark :: "int \<Rightarrow> bool" where
  "is_final_mark c \<longleftrightarrow> c = 46 \<or> c = 33 \<or> c = 63 \<or> c = 2404"

text \<open>
  The loop \<open>for match in boundary_regex.finditer(provisional): last_boundary_idx = match.end()\<close>.
  The pattern is two characters long; the scan goes left to right, continues behind a match,
  and \<open>None\<close> stands for the initial \<open>-1\<close>.
\<close>

fun last_boundary_idx :: "ustr \<Rightarrow> nat option" where
  "last_boundary_idx (a # b # cs) =
     (if is_boundary_mark a \<and> is_space b
      then (case last_boundary_idx cs of None \<Rightarrow> Some 2 | Some e \<Rightarrow> Some (e + 2))
      else map_option Suc (last_boundary_idx (b # cs)))"
| "last_boundary_idx cs = None"

definition truncate_to_words_sentence_aware :: "ustr \<Rightarrow> int \<Rightarrow> ustr" where
  "truncate_to_words_sentence_aware text max_words =
     (let words = pysplit text in
      if int (length words) \<le> max_words then text
      else
        let provisional = join_with [32] (slice_to max_words words) in
        (case last_boundary_idx provisional of
           Some i \<Rightarrow> strip (take i provisional)
         | None \<Rightarrow> strip provisional))"

text \<open>
  The search is for one character of the final class followed by \<open>$\<close>, which matches at
  the end of the string, or
  in front of a newline that ends it; \<open>cleaned\<close> is right-stripped and ends with no newline, so the
  search succeeds exactly when the last character is in the class.
\<close>

definition ensure_sentence_boundary :: "ustr \<Rightarrow> ustr" where
  "ensure_sentence_boundary text =
     (let cleaned = rstrip text in
      if cleaned \<noteq> [] \<and> is_final_mark (last cleaned) then cleaned else cleaned @ [46])"

section \<open>Post-processor: cleaning\<close>

text \<open>
  \<open>text.encode('utf-8', errors='ignore').decode('utf-8')\<close> drops what UTF-8 cannot
  encode, the lone surrogates U+D800..U+DFFF, and keeps every other code point.
\<close>

definition drop_unencodable :: "ustr \<Rightarrow> ustr" where
  "drop_unencodable s = filter (\<lambda>c. \<not> (55296 \<le> c \<and> c \<le> 57343)) s"

text \<open>The two substitutions that delete U+200B..U+200D and U+FEFF, and runs of U+FFFD.\<close>

definition remove_zero_width :: "ustr \<Rightarrow> ustr" where
  "remove_zero_width s = filter (\<lambda>c. \<not> ((8203 \<le> c \<and> c \<le> 8205) \<or> c = 65279)) s"

definition remove_replacement_chars :: "ustr \<Rightarrow> ustr" where
  "remove_replacement_chars s = filter (\<lambda>c. c \<noteq> 65533) s"

text \<open>
  \<open>re.sub(r'\n\s*\n\s*\n', '\n\n', s)\<close>. A match starts at a newline; the two \<open>\s*\<close>
  are greedy and a newline is itself whitespace, so the match runs through the whitespace
  after that newline up to the last newline in it, and exists when that whitespace holds two
  newlines or more. \<open>blank_match_len\<close> is the length of the match after its first
  character. The scan is left to right over non-overlapping matches; the counter is the
  number of characters still to skip inside a match.
\<close>

definition blank_match_len :: "ustr \<Rightarrow> nat option" where
  "blank_match_len cs =
     (let run = takeWhile is_space cs in
      if 2 \<le> count_list run 10
      then Some (length run - length (takeWhile (\<lambda>c. c \<noteq> 10) (rev run)))
      else None)"

fun collapse_blank_lines :: "nat \<Rightarrow> ustr \<Rightarrow> ustr" where
  "collapse_blank_lines k [] = []"
| "collapse_blank_lines (Suc k) (c # cs) = collapse_blank_lines k cs"
| "collapse_blank_lines 0 (c # cs) =
     (if c = 10
      then (case blank_match_len cs of
              Some n \<Rightarrow> [10, 10] @ collapse_blank_lines n cs
            | None \<Rightarrow> 10 # collapse_blank_lines 0 cs)
      else c # collapse_blank_lines 0 cs)"

text \<open>
  \<open>re.sub(r'[ \t]+', ' ', s)\<close>: each maximal run of spaces and tabs becomes one space
  (written out at the last character of the run).
\<close>

definition is_hspace :: "int \<Rightarrow> bool" where
  "is_hspace c \<longleftrightarrow> c = 32 \<or> c = 9"

fun collapse_hspace :: "ustr \<Rightarrow> ustr" where
  "collapse_hspace [] = []"
| "collapse_hspace (c # cs) =
     (if is_hspace c
      then (case cs of
              [] \<Rightarrow> [32]
            | d # _ \<Rightarrow> if is_hspace d then collapse_hspace cs else 32 # collapse_hspace cs)
      else c # collapse_hspace cs)"

text \<open>\<open>s.replace('\r\n', '\n').replace('\r', '\n')\<close>.\<close>

fun replace_crlf :: "ustr \<Rightarrow> ustr" where
  "replace_crlf (a # b # cs) =
     (if a = 13 \<and> b = 10 then 10 # replace_crlf cs else a # replace_crlf (b # cs))"
| "replace_crlf cs = cs"

definition replace_cr :: "ustr \<Rightarrow> ustr" where
  "replace_cr s = map (\<lambda>c. if c = 13 then 10 else c) s"

definition clean_response_text :: "ustr \<Rightarrow> ustr" where
  "clean_response_text text =
     (let cleaned_text = drop_unencodable text;
          cleaned_text = remove_zero_width cleaned_text;
          cleaned_text = remove_replacement_chars cleaned_text;
          cleaned_text = collapse_blank_lines 0 cleaned_text;
          cleaned_text = collapse_hspace cleaned_text
      in replace_cr (replace_crlf cleaned_text))"

section \<open>The Unicode tables and limits of the Python runtime\<close>

text \<open>
  Case conversion, the decimal digits (\<open>\d\<close> and \<open>int()\<close>), the word characters
  (\<open>\w\<close>, \<open>\b\<close>) and case-insensitive matching (\<open>re.IGNORECASE\<close>) come from the Unicode
  database of the interpreter, which is no part of the repository; so does the limit on the
  number of digits that \<open>int()\<close> converts (\<open>sys.get_int_max_str_digits()\<close>: 4300 by default from
  CPython 3.11 on, \<open>None\<close> here for no limit). The functions that use them take the tables
  as a parameter, so every theorem below holds for whatever the tables are. \<open>ascii_db\<close> is
  their restriction to ASCII with the default limit, used to evaluate concrete ASCII inputs.
\<close>

record unicode_db =
  str_lower :: "ustr \<Rightarrow> ustr"
  str_upper :: "ustr \<Rightarrow> ustr"
  decimal_value :: "int \<Rightarrow> nat option"
  is_word_char :: "int \<Rightarrow> bool"
  ci_eq :: "int \<Rightarrow> int \<Rightarrow> bool"
  max_str_digits :: "nat option"

definition ascii_lower :: "int \<Rightarrow> int" where
  "ascii_lower c = (if 65 \<le> c \<and> c \<le> 90 then c + 32 else c)"

definition ascii_upper :: "int \<Rightarrow> int" where
  "ascii_upper c = (if 97 \<le> c \<and> c \<le> 122 then c - 32 else c)"

definition ascii_db :: unicode_db where
  "ascii_db =
     \<lparr> str_lower = map ascii_lower,
       str_upper = map ascii_upper,
       decimal_value = (\<lambda>c. if 48 \<le> c \<and> c \<le> 57 then Some (nat (c - 48)) else None),
       is_word_char = (\<lambda>c. (48 \<le> c \<and> c \<le> 57) \<or> (65 \<le> c \<and> c \<le> 90) \<or>
                              (97 \<le> c \<and> c \<le> 122) \<or> c = 95),
       ci_eq = (\<lambda>p c. ascii_lower p = ascii_lower c),
       max_str_digits = Some 4300 \<rparr>"

definition is_digit :: "unicode_db \<Rightarrow> int \<Rightarrow> bool" where
  "is_digit db c \<longleftrightarrow> decimal_value db c \<noteq> None"

text \<open>
  \<open>int(m)\<close> for a non-empty string of decimal digits: the number, or \<open>None\<close> for the
  \<open>ValueError\<close> that a string longer than the limit raises.
\<close>

definition int_of_digits :: "unicode_db \<Rightarrow> ustr \<Rightarrow> nat" where
  "int_of_digits db ds =
     foldl (\<lambda>acc c. 10 * acc + (case decimal_value db c of Some v \<Rightarrow> v | None \<Rightarrow> 0)) 0 ds"

definition py_int :: "unicode_db \<Rightarrow> ustr \<Rightarrow> nat option" where
  "py_int db ds =
     (case max_str_digits db of
        Some limit \<Rightarrow> if limit < length ds then None else Some (int_of_digits db ds)
      | None \<Rightarrow> Some (int_of_digits db ds))"

text \<open>A literal of a pattern matched at the start of a text, ignoring case.\<close>

fun ci_prefix :: "unicode_db \<Rightarrow> ustr \<Rightarrow> ustr \<Rightarrow> bool" where
  "ci_prefix db [] s = True"
| "ci_prefix db (p # ps) [] = False"
| "ci_prefix db (p # ps) (c # cs) = (ci_eq db p c \<and> ci_prefix db ps cs)"

text \<open>\<open>\b\<close> between two neighbouring positions; beyond either end of the text counts as no
  word character.\<close>

definition word_boundary :: "unicode_db \<Rightarrow> int option \<Rightarrow> int option \<Rightarrow> bool" where
  "word_boundary db prev nxt \<longleftrightarrow>
     (case prev of None \<Rightarrow> False | Some c \<Rightarrow> is_word_char db c) \<noteq>
     (case nxt of None \<Rightarrow> False | Some c \<Rightarrow> is_word_char db c)"

definition first_char :: "ustr \<Rightarrow> int option" where
  "first_char s = (case s of [] \<Rightarrow> None | c # _ \<Rightarrow> Some c)"

section \<open>Post-processor: section headers, cap and metrics\<close>

text \<open>\<open>text.split('\n')\<close>: the pieces between the separators, empty ones included.\<close>

fun split_on :: "int \<Rightarrow> ustr \<Rightarrow> ustr list" where
  "split_on sep [] = [[]]"
| "split_on sep (c # cs) =
     (if c = sep then [] # split_on sep cs
      else (case split_on sep cs of [] \<Rightarrow> [[c]] | l # ls \<Rightarrow> (c # l) # ls))"

definition section_keywords :: "ustr list" where
  "section_keywords =
     [lit ''hook'', lit ''intro'', lit ''main'', lit ''conclusion'', lit ''outro'', lit ''cta'']"

definition format_line :: "unicode_db \<Rightarrow> ustr \<Rightarrow> ustr" where
  "format_line db line =
     (if list_ex (\<lambda>kw. prefix kw (str_lower db line)) section_keywords
      then [10, 91] @ str_upper db (strip line) @ [93, 10]
      else line)"

text \<open>
  Of the dictionary that \<open>_post_process_script\<close> returns, the model keeps the script and its
  word count. The speaking time (a float), the timing suggestions and the pattern markers are
  computed from them and from the target duration and change neither.
\<close>

record processed =
  script :: ustr
  word_count :: nat

text \<open>
  The first part of \<open>_post_process_script\<close>, up to \<open>"\n".join(formatted_script)\<close>: the text
  that the truncation receives.
\<close>

definition format_script :: "unicode_db \<Rightarrow> ustr \<Rightarrow> ustr" where
  "format_script db raw_script =
     (let lines = split_on 10 raw_script;
          cleaned_lines = filter (\<lambda>l. l \<noteq> []) (map strip lines);
          formatted_script = map (format_line db) cleaned_lines
      in join_with [10] formatted_script)"

definition post_process_script :: "unicode_db \<Rightarrow> ustr \<Rightarrow> int \<Rightarrow> processed" where
  "post_process_script db raw_script hard_word_cap =
     (let script_text = format_script db raw_script;
          script_text = truncate_to_words_sentence_aware script_text hard_word_cap;
          script_text = ensure_sentence_boundary script_text
      in \<lparr> script = script_text, word_count = length (pysplit script_text) \<rparr>)"

section \<open>Orchestrator: the item-count heuristics\<close>

text \<open>
  \<open>re.findall\<close> with one group: the scan tries a match at each position from left to right
  and resumes behind a match. The matcher gets the character in front of the position (for
  \<open>\b\<close>) and the rest of the text, and returns the group's text with the length of the
  match; the counter is the number of characters still to skip inside a match.
\<close>

fun findall :: "(int option \<Rightarrow> ustr \<Rightarrow> ('a \<times> nat) option) \<Rightarrow> int option \<Rightarrow> nat \<Rightarrow> ustr \<Rightarrow> 'a list" where
  "findall m prev k [] = []"
| "findall m prev (Suc k) (c # cs) = findall m (Some c) k cs"
| "findall m prev 0 (c # cs) =
     (case m prev (c # cs) of
        Some (v, n) \<Rightarrow> v # findall m (Some c) (n - 1) cs
      | None \<Rightarrow> findall m (Some c) 0 cs)"

text \<open>
  \<open>top\s+(\d+)\<close>, ignoring case. The greedy runs of whitespace and of digits are maximal:
  giving back a character leaves a whitespace or a digit where the pattern wants the next
  class.
\<close>

definition match_top :: "unicode_db \<Rightarrow> int option \<Rightarrow> ustr \<Rightarrow> (ustr \<times> nat) option" where
  "match_top db prev s =
     (if ci_prefix db (lit ''top'') s
      then
        let r = drop 3 s;
            sp = takeWhile is_space r;
            ds = takeWhile (is_digit db) (dropWhile is_space r)
        in if sp \<noteq> [] \<and> ds \<noteq> [] then Some (ds, 3 + length sp + length ds)
           else None
      else None)"

text \<open>
  One alternative of \<open>(?:items?|laptops?|phones?|mobiles?|tips?|points?)\b\<close>: the noun, then
  the optional \<open>s\<close> (tried first, as \<open>?\<close> is greedy), then a word boundary. The result is
  the length matched.
\<close>

definition match_noun :: "unicode_db \<Rightarrow> ustr \<Rightarrow> ustr \<Rightarrow> nat option" where
  "match_noun db noun s =
     (if ci_prefix db noun s \<and> noun \<noteq> []
      then
        let r = drop (length noun) s;
            matched_last = s ! (length noun - 1)
        in (case r of
              c # r' \<Rightarrow>
                if ci_eq db 115 c \<and> word_boundary db (Some c) (first_char r')
                then Some (length noun + 1)
                else if word_boundary db (Some matched_last) (Some c) then Some (length noun)
                else None
            | [] \<Rightarrow>
                if word_boundary db (Some matched_last) None then Some (length noun) else None)
      else None)"

fun first_match_noun :: "unicode_db \<Rightarrow> ustr list \<Rightarrow> ustr \<Rightarrow> nat option" where
  "first_match_noun db [] s = None"
| "first_match_noun db (noun # nouns) s =
     (case match_noun db noun s of Some n \<Rightarrow> Some n | None \<Rightarrow> first_match_noun db nouns s)"

definition count_nouns :: "ustr list" where
  "count_nouns =
     [lit ''item'', lit ''laptop'', lit ''phone'', lit ''mobile'', lit ''tip'', lit ''point'']"

text \<open>\<open>\b(\d+)\s*(?:items?|laptops?|phones?|mobiles?|tips?|points?)\b\<close>, ignoring case.\<close>

definition match_count_noun :: "unicode_db \<Rightarrow> int option \<Rightarrow> ustr \<Rightarrow> (ustr \<times> nat) option" where
  "match_count_noun db prev s =
     (if word_boundary db prev (first_char s)
      then
        let ds = takeWhile (is_digit db) s;
            r = dropWhile (is_digit db) s;
            sp = takeWhile is_space r
        in if ds = [] then None
           else (case first_match_noun db count_nouns (dropWhile is_space r) of
                   Some n \<Rightarrow> Some (ds, length ds + length sp + n)
                 | None \<Rightarrow> None)
      else None)"

text \<open>
  \<open>" ".join([t for t in [topic, additional_context] if t])\<close>, then both patterns; each
  group found goes through \<open>int()\<close> and is skipped when that raises; then the maximum of
  the numbers.
\<close>

definition extract_expected_item_count :: "unicode_db \<Rightarrow> ustr \<Rightarrow> ustr option \<Rightarrow> nat option" where
  "extract_expected_item_count db topic_text context =
     (let given = filter (\<lambda>t. t \<noteq> [])
                    (topic_text # (case context of None \<Rightarrow> [] | Some c \<Rightarrow> [c]));
          joined = join_with [32] given;
          candidates = List.map_filter (py_int db)
                         (findall (match_top db) None 0 joined @
                          findall (match_count_noun db) None 0 joined)
      in if candidates = [] then None else Some (Max (set candidates)))"

text \<open>The three patterns of \<open>_count_list_items\<close>, each matched at the start of a stripped line.\<close>

definition is_numbered_or_bulleted :: "unicode_db \<Rightarrow> ustr \<Rightarrow> bool" where
  "is_numbered_or_bulleted db ln \<longleftrightarrow>
     (takeWhile (is_digit db) ln \<noteq> [] \<and>
        (case dropWhile (is_digit db) ln of [] \<Rightarrow> False | c # _ \<Rightarrow> c = 41 \<or> c = 46)) \<or>
     (case ln of c # d # _ \<Rightarrow> (c = 45 \<or> c = 42) \<and> is_space d | _ \<Rightarrow> False)"

text \<open>
  \<open>^\*\*\s*\w+\s*\d+\s*\*\*\<close>: \<open>\w+\<close> may give back characters (a digit is a word
  character), so every length of it is tried; the rest is \<open>\s*\d+\s*\*\*\<close>.
\<close>

definition bold_label_tail :: "unicode_db \<Rightarrow> ustr \<Rightarrow> bool" where
  "bold_label_tail db r \<longleftrightarrow>
     (let r1 = dropWhile is_space r;
          ds = takeWhile (is_digit db) r1;
          r2 = dropWhile is_space (dropWhile (is_digit db) r1)
      in ds \<noteq> [] \<and> prefix [42, 42] r2)"

definition is_bold_label :: "unicode_db \<Rightarrow> ustr \<Rightarrow> bool" where
  "is_bold_label db ln \<longleftrightarrow>
     prefix [42, 42] ln \<and>
     (let a = dropWhile is_space (drop 2 ln);
          w = takeWhile (is_word_char db) a
      in list_ex (\<lambda>j. bold_label_tail db (drop j a)) [1 ..< Suc (length w)])"

text \<open>\<open>^(?:laptop|phone|item)\s*\d+[:\-]\<close>, ignoring case.\<close>

definition is_labelled_item :: "unicode_db \<Rightarrow> ustr \<Rightarrow> bool" where
  "is_labelled_item db ln \<longleftrightarrow>
     list_ex
       (\<lambda>noun. ci_prefix db noun ln \<and>
          (let r = dropWhile is_space (drop (length noun) ln) in
           takeWhile (is_digit db) r \<noteq> [] \<and>
           (case dropWhile (is_digit db) r of [] \<Rightarrow> False | c # _ \<Rightarrow> c = 58 \<or> c = 45)))
       [lit ''laptop'', lit ''phone'', lit ''item'']"

definition count_list_items :: "unicode_db \<Rightarrow> ustr \<Rightarrow> nat" where
  "count_list_items db text =
     (let lines = map strip (split_on 10 text) in
      length (filter (\<lambda>ln. is_numbered_or_bulleted db ln \<or> is_bold_label db ln \<or>
                            is_labelled_item db ln) lines))"

section \<open>Orchestrator: the external service and the call\<close>

text \<open>
  An exception is a value; \<open>message\<close> is its \<open>str(e)\<close>. A response of the service has
  its candidates, the quick accessor \<open>response.text\<close> (which may raise; the empty text stands
  for a missing one) and its \<open>str(response)\<close>.

  A rating's probability is what \<open>getattr(rating, 'probability', None)\<close> gives. The
  service's library (\<open>google.generativeai\<close>) delivers a member of its enumeration
  \<open>HarmProbability\<close>; a string and \<open>None\<close> are the other values the code allows for. The
  category is kept by its rendering in an f-string.
\<close>

datatype exn = Exn (message: ustr)

datatype harm_probability = HARM_PROBABILITY_UNSPECIFIED | NEGLIGIBLE | LOW | MEDIUM | HIGH

datatype probability_value =
    Probability_enum harm_probability
  | Probability_str ustr
  | Probability_none

record rating =
  category :: ustr
  probability :: probability_value

record candidate =
  safety_ratings :: "rating list"
  parts :: "ustr list"

record response =
  candidates :: "candidate list"
  text_accessor :: "exn + ustr"
  as_string :: ustr

datatype outcome = Raises exn | Returns response

record gen_args =
  topic :: ustr
  length_minutes :: int
  tone :: ustr
  target_audience :: ustr
  content_type :: ustr
  creator_style :: "ustr option"
  additional_context :: "ustr option"
  requested_word_cap :: "int option"
  force_hinglish_ascii :: bool

text \<open>
  The four places that call \<open>generate_content\<close>. The full prompt and the simple fallback
  prompt are kept by their inputs (the arguments and the resolved cap; the topic and the
  duration); the two continuation prompts are rendered character by character.
\<close>

datatype prompt =
    Full_prompt gen_args int
  | Simple_prompt ustr int
  | Continuation_prompt ustr
  | Guided_prompt ustr

record request =
  req_prompt :: prompt
  max_output_tokens :: int

text \<open>
  The service answers a request knowing all requests of this call so far (the last one is the
  current request): any behaviour of a stateful service over the sequential calls of one
  \<open>generate_script\<close> is such a function. The log of requests is the state that the model
  threads through.
\<close>

type_synonym service = "request list \<Rightarrow> outcome"

definition generate_content :: "service \<Rightarrow> request list \<Rightarrow> request \<Rightarrow> outcome \<times> request list" where
  "generate_content svc log r = (svc (log @ [r]), log @ [r])"

datatype result = Success ustr nat | Failure ustr

text \<open>The decimal rendering of an integer in an f-string.\<close>

fun digits_of :: "nat \<Rightarrow> ustr" where
  "digits_of n = (if n < 10 then [48 + int n] else digits_of (n div 10) @ [48 + int (n mod 10)])"

definition str_int :: "int \<Rightarrow> ustr" where
  "str_int i = (if i < 0 then 45 # digits_of (nat (- i)) else digits_of (nat i))"

text \<open>
  \<open>int(hard_word_cap * 0.85)\<close> and \<open>int(hard_word_cap * 1.3)\<close>: the float product, cut
  towards zero. The resolved cap lies between 150 and 5000; there the product of the cap with
  the double nearest to 17/20 (to 13/10) rounds to the integer when the exact product is one,
  and stays a twentieth (a tenth) or more away from every integer otherwise, so the result is
  the exact quotient.
\<close>

definition scaled_int :: "int \<Rightarrow> int \<Rightarrow> int \<Rightarrow> int" where
  "scaled_int num den x = (if 0 \<le> x then (num * x) div den else - ((num * (- x)) div den))"

definition default_target_words :: "int \<Rightarrow> int" where
  "default_target_words minutes = max 150 (minutes * 150)"

definition resolve_word_cap :: "int \<Rightarrow> int option \<Rightarrow> int" where
  "resolve_word_cap minutes requested =
     (case requested of
        Some n \<Rightarrow>
          if n \<noteq> 0 \<and> 0 < n then max 200 (min 5000 n)
          else min 2000 (default_target_words minutes)
      | None \<Rightarrow> min 2000 (default_target_words minutes))"

definition call_token_cap :: "int \<Rightarrow> int" where
  "call_token_cap hard_word_cap = max 256 (min 4096 (scaled_int 13 10 hard_word_cap))"

definition blocked_by_filters_msg :: ustr where
  "blocked_by_filters_msg =
     lit ''Content blocked by safety filters. Please try a different topic or rephrase your request.''"

definition blocked_categories_msg :: "ustr list \<Rightarrow> ustr" where
  "blocked_categories_msg cats =
     lit ''Content blocked by safety filters: '' @ join_with (lit '', '') cats @
     lit ''. Try rephrasing your topic or context.''"

definition no_text_msg :: ustr where
  "no_text_msg = lit ''No text content generated. The response may have been blocked or filtered.''"

text \<open>
  \<open>print\<close> writes the line and a newline to the console in the console's encoding and
  raises \<open>UnicodeEncodeError\<close> when a character has no encoding there (a lone surrogate
  under UTF-8, Devanagari under a legacy code page). Which characters the console encodes,
  and the exception it raises for a text, belong to the environment and are a parameter.
\<close>

record console =
  can_encode :: "int \<Rightarrow> bool"
  encode_error :: "ustr \<Rightarrow> exn"

definition print_line :: "console \<Rightarrow> ustr \<Rightarrow> exn option" where
  "print_line con s =
     (if list_all (can_encode con) (s @ [10]) then None else Some (encode_error con s))"

text \<open>
  A step inside the \<open>try\<close> block either raises, returns the result dictionary, or goes on
  with a value.
\<close>

datatype 'a step = Raise exn | Return result | Continue 'a

text \<open>
  The first call, and the fallback call with the simple prompt when the first response has no
  candidates; a line is printed before the fallback call.
  \<open>not response.candidates or not response.text\<close> reads the accessor only when there are
  candidates.
\<close>

definition full_request :: "gen_args \<Rightarrow> int \<Rightarrow> request" where
  "full_request a hard_word_cap =
     \<lparr> req_prompt = Full_prompt a hard_word_cap,
       max_output_tokens = call_token_cap hard_word_cap \<rparr>"

definition simple_request :: "gen_args \<Rightarrow> int \<Rightarrow> request" where
  "simple_request a hard_word_cap =
     \<lparr> req_prompt = Simple_prompt (topic a) (length_minutes a),
       max_output_tokens = call_token_cap hard_word_cap \<rparr>"

definition first_attempt_blocked_line :: ustr where
  "first_attempt_blocked_line = lit ''First attempt blocked, trying with simpler prompt...''"

definition obtain_response ::
    "console \<Rightarrow> service \<Rightarrow> gen_args \<Rightarrow> int \<Rightarrow> response step \<times> request list" where
  "obtain_response con svc a hard_word_cap =
     (case generate_content svc [] (full_request a hard_word_cap) of
        (Raises e, log) \<Rightarrow> (Raise e, log)
      | (Returns r, log) \<Rightarrow>
          if candidates r \<noteq> [] then (Continue r, log)
          else
            (case print_line con first_attempt_blocked_line of
               Some e \<Rightarrow> (Raise e, log)
             | None \<Rightarrow>
                 (case generate_content svc log (simple_request a hard_word_cap) of
                    (Raises e, log2) \<Rightarrow> (Raise e, log2)
                  | (Returns r2, log2) \<Rightarrow>
                      if candidates r2 = [] then (Return (Failure blocked_by_filters_msg), log2)
                      else
                        (case text_accessor r2 of
                           Inl e \<Rightarrow> (Raise e, log2)
                         | Inr t \<Rightarrow>
                             if t = [] then (Return (Failure blocked_by_filters_msg), log2)
                             else (Continue r2, log2)))))"

text \<open>
  \<open>getattr(rating, 'probability', None) in ['HIGH', 'MEDIUM']\<close>: membership in a list of
  strings compares with \<open>==\<close>, and neither a member of the enumeration nor \<open>None\<close> equals
  a string. A rating that passes is rendered \<open>f"{rating.category}: {rating.probability}"\<close>.
\<close>

definition is_blocking :: "rating \<Rightarrow> bool" where
  "is_blocking rt \<longleftrightarrow>
     probability rt = Probability_str (lit ''HIGH'') \<or>
     probability rt = Probability_str (lit ''MEDIUM'')"

definition blocked_entry :: "rating \<Rightarrow> ustr list" where
  "blocked_entry rt =
     (case probability rt of
        Probability_str p \<Rightarrow> if is_blocking rt then [category rt @ lit '': '' @ p] else []
      | _ \<Rightarrow> [])"

definition blocked_categories :: "response \<Rightarrow> ustr list" where
  "blocked_categories r =
     (case candidates r of
        [] \<Rightarrow> []
      | c # _ \<Rightarrow> concat (map blocked_entry (safety_ratings c)))"

definition parts_text :: "candidate \<Rightarrow> ustr list" where
  "parts_text c = filter (\<lambda>t. t \<noteq> []) (parts c)"

fun first_parts_text :: "candidate list \<Rightarrow> ustr option" where
  "first_parts_text [] = None"
| "first_parts_text (c # cs) =
     (if parts_text c \<noteq> [] then Some (join_with [10] (parts_text c)) else first_parts_text cs)"

definition extract_from_parts_or_string :: "response \<Rightarrow> ustr option" where
  "extract_from_parts_or_string r =
     (case first_parts_text (candidates r) of
        Some t \<Rightarrow> Some t
      | None \<Rightarrow> if as_string r \<noteq> [] then Some (as_string r) else None)"

definition extract_text_from_response :: "response \<Rightarrow> ustr option" where
  "extract_text_from_response r =
     (case text_accessor r of
        Inr t \<Rightarrow> if t \<noteq> [] then Some t else extract_from_parts_or_string r
      | Inl e \<Rightarrow> extract_from_parts_or_string r)"

section \<open>Orchestrator: continuation\<close>

definition budget_note :: "int \<Rightarrow> int \<Rightarrow> ustr \<Rightarrow> ustr" where
  "budget_note remaining_words hard_word_cap tail =
     lit ''You have approximately '' @ str_int remaining_words @
     lit '' words remaining (total cap '' @ str_int hard_word_cap @
     lit ''). Here are the last lines to continue from:'' @ [10] @ tail"

definition continuation_prompt :: "int \<Rightarrow> int \<Rightarrow> ustr \<Rightarrow> ustr" where
  "continuation_prompt remaining_words hard_word_cap tail =
     lit ''Continue the script from where it stopped. Do not repeat any sentences. '' @
     lit ''Finish the remaining sections and end with a proper outro. '' @
     budget_note remaining_words hard_word_cap tail"

definition guidance_text :: "nat \<Rightarrow> nat \<Rightarrow> ustr" where
  "guidance_text current_items expected_items =
     lit ''Continue with items '' @ str_int (int current_items + 1) @ lit '' to '' @
     str_int (int expected_items) @
     lit ''. Keep each item concise and balanced. Do not repeat. ''"

text \<open>
  What both continuation helpers do with the outcome of their call: an exception, a missing
  or an empty text leave the current text as it is; otherwise the new text is appended behind
  a blank line and the whole is cut to the cap.
\<close>

definition append_more :: "ustr \<Rightarrow> int \<Rightarrow> outcome \<Rightarrow> ustr" where
  "append_more current_text hard_word_cap out =
     (case out of
        Raises e \<Rightarrow> current_text
      | Returns more_response \<Rightarrow>
          (case text_accessor more_response of
             Inl e \<Rightarrow> current_text
           | Inr t \<Rightarrow>
               if t = [] then current_text
               else truncate_to_words_sentence_aware
                      (rstrip current_text @ [10, 10] @ strip t) hard_word_cap))"

definition attempt_continuation ::
    "service \<Rightarrow> request list \<Rightarrow> ustr \<Rightarrow> int \<Rightarrow> int \<Rightarrow> ustr \<times> request list" where
  "attempt_continuation svc log current_text hard_word_cap tokens =
     (let remaining_words = max 0 (hard_word_cap - int (length (pysplit current_text))) in
      if remaining_words < 50 then (current_text, log)
      else
        let tail = join_with [32] (last80 (pysplit current_text));
            p = continuation_prompt remaining_words hard_word_cap tail
        in (case generate_content svc log
                   \<lparr> req_prompt = Continuation_prompt p, max_output_tokens = tokens \<rparr> of
              (out, log2) \<Rightarrow> (append_more current_text hard_word_cap out, log2)))"

definition attempt_guided_continuation ::
    "service \<Rightarrow> request list \<Rightarrow> ustr \<Rightarrow> int \<Rightarrow> int \<Rightarrow> ustr \<Rightarrow> ustr \<times> request list" where
  "attempt_guided_continuation svc log current_text hard_word_cap tokens guidance =
     (let remaining_words = max 0 (hard_word_cap - int (length (pysplit current_text))) in
      if remaining_words < 50 then (current_text, log)
      else
        let tail = join_with [32] (last80 (pysplit current_text));
            p = guidance @ budget_note remaining_words hard_word_cap tail
        in (case generate_content svc log
                   \<lparr> req_prompt = Guided_prompt p, max_output_tokens = tokens \<rparr> of
              (out, log2) \<Rightarrow> (append_more current_text hard_word_cap out, log2)))"

text \<open>
  \<open>if expected_items:\<close> holds for a detected count other than zero.
\<close>

definition truthy_count :: "nat option \<Rightarrow> nat option" where
  "truthy_count expected = (case expected of Some e \<Rightarrow> if e = 0 then None else Some e | None \<Rightarrow> None)"

definition needs_more :: "unicode_db \<Rightarrow> gen_args \<Rightarrow> int \<Rightarrow> ustr \<Rightarrow> bool" where
  "needs_more db a hard_word_cap accumulated_text \<longleftrightarrow>
     int (length (pysplit accumulated_text)) < scaled_int 17 20 hard_word_cap \<or>
     (case truthy_count (extract_expected_item_count db (topic a) (additional_context a)) of
        Some expected_items \<Rightarrow> count_list_items db accumulated_text < expected_items
      | None \<Rightarrow> False)"

definition wants_guided :: "unicode_db \<Rightarrow> gen_args \<Rightarrow> int \<Rightarrow> ustr \<Rightarrow> bool" where
  "wants_guided db a hard_word_cap accumulated_text \<longleftrightarrow>
     (case truthy_count (extract_expected_item_count db (topic a) (additional_context a)) of
        Some expected_items \<Rightarrow>
          count_list_items db accumulated_text < expected_items \<and>
          60 < hard_word_cap - int (length (pysplit accumulated_text))
      | None \<Rightarrow> False)"

definition continuation_phase ::
    "unicode_db \<Rightarrow> service \<Rightarrow> request list \<Rightarrow> gen_args \<Rightarrow> int \<Rightarrow> ustr \<Rightarrow> ustr \<times> request list" where
  "continuation_phase db svc log a hard_word_cap script_text =
     (let tokens = call_token_cap hard_word_cap in
      if needs_more db a hard_word_cap script_text
      then
        (case attempt_continuation svc log script_text hard_word_cap tokens of
           (accumulated_text, log2) \<Rightarrow>
             if wants_guided db a hard_word_cap accumulated_text
             then
               attempt_guided_continuation svc log2 accumulated_text hard_word_cap tokens
                 (guidance_text (count_list_items db accumulated_text)
                    (case extract_expected_item_count db (topic a) (additional_context a) of
                       Some e \<Rightarrow> e | None \<Rightarrow> 0))
             else (accumulated_text, log2))
      else (script_text, log))"

section \<open>Orchestrator: \<open>generate_script\<close>\<close>

text \<open>
  \<open>gather_text\<close> is the \<open>try\<close> block up to the end of the continuation: it raises, returns
  a failure, or goes on with the accumulated text. The body of the \<open>try\<close> block finishes
  that text into the success result. Of the success dictionary the model keeps the script and
  the word count; the other entries repeat the arguments or are computed from the target
  duration and from the clock.
\<close>

definition finish_script :: "unicode_db \<Rightarrow> int \<Rightarrow> ustr \<Rightarrow> result" where
  "finish_script db hard_word_cap accumulated_text =
     (let cleaned_text = clean_response_text accumulated_text;
          processed_script = post_process_script db cleaned_text hard_word_cap
      in Success (script processed_script) (word_count processed_script))"

definition gather_text ::
    "console \<Rightarrow> unicode_db \<Rightarrow> service \<Rightarrow> gen_args \<Rightarrow> ustr step \<times> request list" where
  "gather_text con db svc a =
     (let hard_word_cap = resolve_word_cap (length_minutes a) (requested_word_cap a) in
      case obtain_response con svc a hard_word_cap of
        (Raise e, log) \<Rightarrow> (Raise e, log)
      | (Return res, log) \<Rightarrow> (Return res, log)
      | (Continue r, log) \<Rightarrow>
          if blocked_categories r \<noteq> []
          then (Return (Failure (blocked_categories_msg (blocked_categories r))), log)
          else
            (case extract_text_from_response r of
               None \<Rightarrow> (Return (Failure no_text_msg), log)
             | Some script_text \<Rightarrow>
                 if script_text = [] then (Return (Failure no_text_msg), log)
                 else
                   (case continuation_phase db svc log a hard_word_cap script_text of
                      (accumulated_text, log2) \<Rightarrow> (Continue accumulated_text, log2))))"

definition generate_script_body ::
    "console \<Rightarrow> unicode_db \<Rightarrow> service \<Rightarrow> gen_args \<Rightarrow> (exn + result) \<times> request list" where
  "generate_script_body con db svc a =
     (case gather_text con db svc a of
        (Raise e, log) \<Rightarrow> (Inl e, log)
      | (Return res, log) \<Rightarrow> (Inr res, log)
      | (Continue accumulated_text, log) \<Rightarrow>
          (Inr (finish_script db (resolve_word_cap (length_minutes a) (requested_word_cap a))
                  accumulated_text), log))"

text \<open>
  The function as its caller sees it: \<open>Inl\<close> is an exception that leaves the function,
  \<open>Inr\<close> the dictionary it returns. The first line is printed before the \<open>try\<close> block.
  The handler \<open>except Exception as e\<close> prints a line with \<open>str(e)\<close> and returns the
  failure that carries \<open>str(e)\<close>; an exception of that print leaves the function.
\<close>

definition opening_line :: "gen_args \<Rightarrow> ustr" where
  "opening_line a =
     lit ''Generating script: '' @ topic a @ lit '' ('' @ str_int (length_minutes a) @
     lit '' min, '' @ tone a @ lit '', '' @ target_audience a @ lit '')''"

definition failure_line :: "exn \<Rightarrow> ustr" where
  "failure_line e = lit ''Script generation failed: '' @ message e"

definition generate_script ::
    "console \<Rightarrow> unicode_db \<Rightarrow> service \<Rightarrow> gen_args \<Rightarrow> (exn + result) \<times> request list" where
  "generate_script con db svc a =
     (case print_line con (opening_line a) of
        Some e \<Rightarrow> (Inl e, [])
      | None \<Rightarrow>
          (case generate_script_body con db svc a of
             (Inl e, log) \<Rightarrow>
               (case print_line con (failure_line e) of
                  Some e2 \<Rightarrow> (Inl e2, log)
                | None \<Rightarrow> (Inr (Failure (message e)), log))
           | (Inr res, log) \<Rightarrow> (Inr res, log)))"

text \<open>Which call site a logged request came from.\<close>

definition is_guided_request :: "request \<Rightarrow> bool" where
  "is_guided_request r = (case req_prompt r of Guided_prompt p \<Rightarrow> True | _ \<Rightarrow> False)"

definition is_continuation_request :: "request \<Rightarrow> bool" where
  "is_continuation_request r =
     (case req_prompt r of
        Continuation_prompt p \<Rightarrow> True
      | Guided_prompt p \<Rightarrow> True
      | _ \<Rightarrow> False)"

section \<open>Style profiles and the training-context snapshot\<close>

text \<open>
  The numbers of a transcript (ratios and tone scores) are Python floats. Their arithmetic is
  kept abstract: the sum, the division by a count, the test \<open>> 0.6\<close> and the initial \<open>0\<close>
  are parameters, and nothing below depends on what they compute.
\<close>

record 'n num_ops =
  num_zero :: 'n
  num_add :: "'n \<Rightarrow> 'n \<Rightarrow> 'n"
  num_div :: "'n \<Rightarrow> nat \<Rightarrow> 'n"
  exceeds_06 :: "'n \<Rightarrow> bool"

text \<open>
  Modelled from the spec: the class \<open>ProcessedTranscript\<close> of the module
  \<open>transcript_processor\<close>, which is not among the sources. The spec describes it as one
  video's analysed transcript, an immutable record that the ingestion layer owns; the code
  reads it by attribute (\<open>transcript.metadata.uploader\<close>, \<open>transcript.language_breakdown\<close>,
  \<open>transcript.tone_markers\<close>, \<open>transcript.creator_style\<close>, \<open>transcript.segments\<close>). It is
  modelled as an instance of a class with the fields that \<open>_analyze_creator_styles\<close> reads;
  \<open>segment_texts\<close> holds \<open>s.get('text')\<close> of each segment, empty when there is none.
\<close>

record 'n processed_transcript =
  uploader :: ustr
  hindi_ratio :: 'n
  english_ratio :: 'n
  enthusiasm :: 'n
  technical_depth :: 'n
  friendliness :: 'n
  style_markers :: "ustr list"
  segment_texts :: "ustr list"

text \<open>The dictionary that \<open>_analyze_creator_styles\<close> keeps for one creator.\<close>

record 'n creator_analysis =
  transcripts :: "'n processed_transcript list"
  common_patterns :: "ustr list"
  hindi_dominant :: nat
  english_dominant :: nat
  balanced :: nat
  tone_enthusiasm :: 'n
  tone_technical_depth :: 'n
  tone_friendliness :: 'n
  content_style :: "ustr list"
  intro_patterns :: "ustr list"
  outro_patterns :: "ustr list"

definition new_analysis :: "'n num_ops \<Rightarrow> 'n creator_analysis" where
  "new_analysis ops =
     \<lparr> transcripts = [], common_patterns = [],
       hindi_dominant = 0, english_dominant = 0, balanced = 0,
       tone_enthusiasm = num_zero ops, tone_technical_depth = num_zero ops,
       tone_friendliness = num_zero ops,
       content_style = [], intro_patterns = [], outro_patterns = [] \<rparr>"

definition add_transcript ::
    "'n num_ops \<Rightarrow> 'n creator_analysis \<Rightarrow> 'n processed_transcript \<Rightarrow> 'n creator_analysis" where
  "add_transcript ops an t =
     an \<lparr> transcripts := transcripts an @ [t],
          hindi_dominant :=
            (if exceeds_06 ops (hindi_ratio t) then hindi_dominant an + 1 else hindi_dominant an),
          english_dominant :=
            (if \<not> exceeds_06 ops (hindi_ratio t) \<and> exceeds_06 ops (english_ratio t)
             then english_dominant an + 1 else english_dominant an),
          balanced :=
            (if \<not> exceeds_06 ops (hindi_ratio t) \<and> \<not> exceeds_06 ops (english_ratio t)
             then balanced an + 1 else balanced an),
          tone_enthusiasm := num_add ops (tone_enthusiasm an) (enthusiasm t),
          tone_technical_depth := num_add ops (tone_technical_depth an) (technical_depth t),
          tone_friendliness := num_add ops (tone_friendliness an) (friendliness t),
          content_style := content_style an @ style_markers t,
          intro_patterns :=
            intro_patterns an @ filter (\<lambda>x. x \<noteq> []) (take 5 (segment_texts t)),
          outro_patterns :=
            outro_patterns an @
            filter (\<lambda>x. x \<noteq> []) (drop (length (segment_texts t) - 5) (segment_texts t)) \<rparr>"

text \<open>
  The dictionary of creators in insertion order. The first loop of
  \<open>_analyze_creator_styles\<close>:
\<close>

fun update_creator ::
    "ustr \<Rightarrow> ('a \<Rightarrow> 'a) \<Rightarrow> 'a \<Rightarrow> (ustr \<times> 'a) list \<Rightarrow> (ustr \<times> 'a) list" where
  "update_creator k f fresh [] = [(k, f fresh)]"
| "update_creator k f fresh ((k', v) # kvs) =
     (if k' = k then (k', f v) # kvs else (k', v) # update_creator k f fresh kvs)"

fun collect_transcripts ::
    "'n num_ops \<Rightarrow> (ustr \<times> 'n creator_analysis) list \<Rightarrow> 'n processed_transcript list \<Rightarrow>
     (ustr \<times> 'n creator_analysis) list" where
  "collect_transcripts ops acc [] = acc"
| "collect_transcripts ops acc (t # ts) =
     collect_transcripts ops
       (update_creator (uploader t) (\<lambda>an. add_transcript ops an t) (new_analysis ops) acc) ts"

text \<open>
  The second loop. A set turned into a list has the order of Python's hashing; the model
  takes the order of first occurrence. The key \<open>transcripts\<close> stays in the dictionary.
\<close>

definition normalize_analysis :: "'n num_ops \<Rightarrow> 'n creator_analysis \<Rightarrow> 'n creator_analysis" where
  "normalize_analysis ops an =
     (let transcript_count = length (transcripts an) in
      an \<lparr> tone_enthusiasm := num_div ops (tone_enthusiasm an) transcript_count,
           tone_technical_depth := num_div ops (tone_technical_depth an) transcript_count,
           tone_friendliness := num_div ops (tone_friendliness an) transcript_count,
           common_patterns := remdups (common_patterns an),
           content_style := remdups (content_style an),
           intro_patterns := remdups (take 10 (intro_patterns an)),
           outro_patterns := remdups (take 10 (outro_patterns an)) \<rparr>)"

definition analyze_creator_styles ::
    "'n num_ops \<Rightarrow> 'n processed_transcript list \<Rightarrow> (ustr \<times> 'n creator_analysis) list" where
  "analyze_creator_styles ops ts =
     map (\<lambda>(creator, an). (creator, normalize_analysis ops an)) (collect_transcripts ops [] ts)"

text \<open>
  Python values as \<open>json.dump\<close> sees them, and JSON documents. The encoder writes numbers,
  strings, lists and dictionaries, and raises \<open>TypeError\<close> at an instance of any other class.
\<close>

datatype 'n pyval =
    PyInt int
  | PyNum 'n
  | PyStr ustr
  | PyList "'n pyval list"
  | PyDict "(ustr \<times> 'n pyval) list"
  | PyObject "'n processed_transcript"

datatype 'n json =
    JInt int
  | JNum 'n
  | JStr ustr
  | JArr "'n json list"
  | JObj "(ustr \<times> 'n json) list"

datatype py_error = TypeError

fun sequence_options :: "'a option list \<Rightarrow> 'a list option" where
  "sequence_options [] = Some []"
| "sequence_options (x # xs) =
     (case x of None \<Rightarrow> None
      | Some y \<Rightarrow> (case sequence_options xs of None \<Rightarrow> None | Some ys \<Rightarrow> Some (y # ys)))"

fun json_encode :: "'n pyval \<Rightarrow> 'n json option" where
  "json_encode (PyInt i) = Some (JInt i)"
| "json_encode (PyNum x) = Some (JNum x)"
| "json_encode (PyStr t) = Some (JStr t)"
| "json_encode (PyList vs) = map_option JArr (sequence_options (map json_encode vs))"
| "json_encode (PyDict kvs) =
     map_option (\<lambda>js. JObj (zip (map fst kvs) js))
       (sequence_options (map (\<lambda>kv. json_encode (snd kv)) kvs))"
| "json_encode (PyObject t) = None"

fun json_decode :: "'n json \<Rightarrow> 'n pyval" where
  "json_decode (JInt i) = PyInt i"
| "json_decode (JNum x) = PyNum x"
| "json_decode (JStr t) = PyStr t"
| "json_decode (JArr js) = PyList (map json_decode js)"
| "json_decode (JObj kvs) = PyDict (map (\<lambda>kv. (fst kv, json_decode (snd kv))) kvs)"

definition analysis_value :: "'n creator_analysis \<Rightarrow> 'n pyval" where
  "analysis_value an =
     PyDict
       [(lit ''transcripts'', PyList (map PyObject (transcripts an))),
        (lit ''common_patterns'', PyList (map PyStr (common_patterns an))),
        (lit ''language_preferences'',
           PyDict [(lit ''hindi_dominant'', PyInt (int (hindi_dominant an))),
                   (lit ''english_dominant'', PyInt (int (english_dominant an))),
                   (lit ''balanced'', PyInt (int (balanced an)))]),
        (lit ''tone_profile'',
           PyDict [(lit ''enthusiasm'', PyNum (tone_enthusiasm an)),
                   (lit ''technical_depth'', PyNum (tone_technical_depth an)),
                   (lit ''friendliness'', PyNum (tone_friendliness an))]),
        (lit ''content_style'', PyList (map PyStr (content_style an))),
        (lit ''intro_patterns'', PyList (map PyStr (intro_patterns an))),
        (lit ''outro_patterns'', PyList (map PyStr (outro_patterns an)))]"

definition styles_value :: "(ustr \<times> 'n creator_analysis) list \<Rightarrow> 'n pyval" where
  "styles_value styles = PyDict (map (\<lambda>(creator, an). (creator, analysis_value an)) styles)"

text \<open>
  The generator's attributes that the snapshot reads and writes, as Python values. A file is
  the document it holds, or \<open>None\<close> when its content is no complete document:
  \<open>save_training_context\<close> opens the file for writing and \<open>json.dump\<close> writes piece by
  piece, so an encoder error leaves a cut-off text behind and the exception leaves the
  function. \<open>load_training_context\<close> catches every exception and returns \<open>False\<close>.
\<close>

record 'n generator_state =
  creator_styles :: "'n pyval"
  training_context :: "'n pyval"
  generation_config :: "'n pyval"

definition save_training_context :: "'n generator_state \<Rightarrow> py_error option \<times> 'n json option" where
  "save_training_context st =
     (case json_encode
             (PyDict [(lit ''creator_styles'', creator_styles st),
                      (lit ''training_context'', training_context st),
                      (lit ''generation_config'', generation_config st)]) of
        None \<Rightarrow> (Some TypeError, None)
      | Some doc \<Rightarrow> (None, Some doc))"

definition dict_get :: "ustr \<Rightarrow> 'n pyval \<Rightarrow> 'n pyval option" where
  "dict_get k v = (case v of PyDict kvs \<Rightarrow> Some (case map_of kvs k of Some x \<Rightarrow> x | None \<Rightarrow> PyDict [])
                   | _ \<Rightarrow> None)"

definition load_training_context ::
    "'n json option \<Rightarrow> 'n generator_state \<Rightarrow> bool \<times> 'n generator_state" where
  "load_training_context file st =
     (case file of
        None \<Rightarrow> (False, st)
      | Some doc \<Rightarrow>
          (case dict_get (lit ''creator_styles'') (json_decode doc) of
             None \<Rightarrow> (False, st)
           | Some styles \<Rightarrow>
               (case dict_get (lit ''training_context'') (json_decode doc) of
                  None \<Rightarrow> (False, st \<lparr> creator_styles := styles \<rparr>)
                | Some ctx \<Rightarrow>
                    (True, st \<lparr> creator_styles := styles, training_context := ctx \<rparr>))))"

text \<open>\<open>train_on_transcripts\<close> stores the analysis in the generator.\<close>

definition trained_state ::
    "'n num_ops \<Rightarrow> 'n processed_transcript list \<Rightarrow> 'n generator_state \<Rightarrow> 'n generator_state" where
  "trained_state ops ts st = st \<lparr> creator_styles := styles_value (analyze_creator_styles ops ts) \<rparr>"

section \<open>Concrete inputs\<close>

text \<open>
  Arguments, responses, a console and scripted services for running the model on concrete
  inputs: the console encodes UTF-8 (every code point but the surrogates); a scripted service
  answers the n-th request of a call with the n-th outcome of a list and raises when the list
  is used up.
\<close>

definition example_args :: "int \<Rightarrow> ustr \<Rightarrow> int option \<Rightarrow> gen_args" where
  "example_args minutes about cap_override =
     \<lparr> topic = about, length_minutes = minutes, tone = lit ''friendly_and_informative'',
       target_audience = lit ''tech_enthusiasts'', content_type = lit ''review'',
       creator_style = None, additional_context = None,
       requested_word_cap = cap_override, force_hinglish_ascii = True \<rparr>"

definition plain_response :: "ustr \<Rightarrow> response" where
  "plain_response t =
     \<lparr> candidates = [\<lparr> safety_ratings = [], parts = [] \<rparr>], text_accessor = Inr t,
       as_string = [] \<rparr>"

definition rated_response :: "probability_value \<Rightarrow> ustr \<Rightarrow> response" where
  "rated_response p t =
     \<lparr> candidates =
         [\<lparr> safety_ratings =
              [\<lparr> category = lit ''HARM_CATEGORY_HARASSMENT'', probability = p \<rparr>],
            parts = [] \<rparr>],
       text_accessor = Inr t, as_string = [] \<rparr>"

definition utf8_console :: console where
  "utf8_console =
     \<lparr> can_encode = (\<lambda>c. \<not> (55296 \<le> c \<and> c \<le> 57343)),
       encode_error = (\<lambda>s. Exn (lit ''UnicodeEncodeError: surrogates not allowed'')) \<rparr>"

definition repeated_sentences :: "nat \<Rightarrow> ustr" where
  "repeated_sentences n = concat (replicate n (lit ''a b c d. ''))"

definition repeated_words :: "nat \<Rightarrow> ustr" where
  "repeated_words n = concat (replicate n (lit ''a ''))"

definition scripted :: "outcome list \<Rightarrow> service" where
  "scripted outs log =
     (if 0 < length log \<and> length log \<le> length outs then outs ! (length log - 1)
      else Raises (Exn (lit ''service unavailable'')))"

section \<open>Facts about words, joining and stripping\<close>

lemma is_space_32 [simp]: "is_space 32"
  by (simp add: is_space_def)

declare pysplit.simps(2) [simp del]

lemma pysplit_space [simp]: "is_space c \<Longrightarrow> pysplit (c # cs) = pysplit cs"
  by (simp add: pysplit.simps(2))

lemma pysplit_single [simp]: "\<not> is_space c \<Longrightarrow> pysplit [c] = [[c]]"
  by (simp add: pysplit.simps(2))

lemma pysplit_nonempty: "\<not> is_space c \<Longrightarrow> pysplit (c # cs) \<noteq> []"
  by (cases cs) (auto simp: pysplit.simps(2) split: list.splits)

lemma pysplit_word_step:
  "\<not> is_space c \<Longrightarrow> \<not> is_space d \<Longrightarrow>
   pysplit (c # d # ds) = (c # hd (pysplit (d # ds))) # tl (pysplit (d # ds))"
  using pysplit_nonempty[of d ds] by (cases "pysplit (d # ds)") (simp_all add: pysplit.simps(2)[of c])

lemma pysplit_word_sep [simp]:
  "\<not> is_space c \<Longrightarrow> is_space d \<Longrightarrow> pysplit (c # d # ds) = [c] # pysplit ds"
  by (simp add: pysplit.simps(2)[of c])

lemma pysplit_append_word:
  "good_word w \<Longrightarrow> r = [] \<or> is_space (hd r) \<Longrightarrow> pysplit (w @ r) = w # pysplit r"
proof (induction w)
  case Nil
  then show ?case by (simp add: good_word_def)
next
  case (Cons c w)
  then have c: "\<not> is_space c" by (simp add: good_word_def)
  show ?case
  proof (cases w)
    case Nil
    show ?thesis
    proof (cases r)
      case Nil
      with \<open>w = []\<close> c show ?thesis by simp
    next
      case (Cons d ds)
      with Cons.prems(2) have "is_space d" by simp
      with \<open>w = []\<close> c Cons show ?thesis by simp
    qed
  next
    case (Cons d ds)
    with Cons.prems have gw: "good_word w" and d: "\<not> is_space d"
      by (auto simp: good_word_def)
    from Cons.IH[OF gw Cons.prems(2)] have ih: "pysplit (w @ r) = w # pysplit r" .
    have "pysplit (c # d # (ds @ r)) = (c # hd (pysplit (d # (ds @ r)))) # tl (pysplit (d # (ds @ r)))"
      using c d by (rule pysplit_word_step)
    with ih Cons show ?thesis by simp
  qed
qed

lemma pysplit_good: "w \<in> set (pysplit s) \<Longrightarrow> good_word w"
proof (induction s arbitrary: w)
  case Nil
  then show ?case by simp
next
  case (Cons c cs)
  show ?case
  proof (cases "is_space c")
    case True
    with Cons show ?thesis by simp
  next
    case c: False
    show ?thesis
    proof (cases cs)
      case Nil
      with Cons.prems c show ?thesis by (simp add: good_word_def)
    next
      case (Cons d ds)
      show ?thesis
      proof (cases "is_space d")
        case True
        with Cons.prems Cons.IH c Cons show ?thesis
          by (auto simp: good_word_def)
      next
        case d: False
        let ?P = "pysplit (d # ds)"
        have ne: "?P \<noteq> []" using d by (rule pysplit_nonempty)
        have eq: "pysplit (c # cs) = (c # hd ?P) # tl ?P"
          unfolding Cons using c d by (rule pysplit_word_step)
        from ne have hdP: "hd ?P \<in> set ?P" by simp
        from ne have tlP: "set (tl ?P) \<subseteq> set ?P" by (cases ?P) auto
        from Cons.prems eq have "w = c # hd ?P \<or> w \<in> set (tl ?P)" by simp
        then show ?thesis
        proof
          assume "w = c # hd ?P"
          moreover have "good_word (hd ?P)" using Cons.IH hdP Cons by simp
          ultimately show ?thesis using c by (simp add: good_word_def)
        next
          assume "w \<in> set (tl ?P)"
          with tlP Cons.IH Cons show ?thesis by auto
        qed
      qed
    qed
  qed
qed

lemma pysplit_all_space: "\<forall>c \<in> set t. is_space c \<Longrightarrow> pysplit t = []"
  by (induction t) simp_all

lemma pysplit_append_spaces:
  "\<forall>c \<in> set t. is_space c \<Longrightarrow> pysplit (s @ t) = pysplit s"
proof (induction s)
  case Nil
  then show ?case by (simp add: pysplit_all_space)
next
  case (Cons c cs)
  show ?case
  proof (cases "is_space c")
    case True
    with Cons show ?thesis by simp
  next
    case c: False
    show ?thesis
    proof (cases cs)
      case Nil
      show ?thesis
      proof (cases t)
        case Nil
        with \<open>cs = []\<close> show ?thesis by simp
      next
        case (Cons d ts)
        with Cons.prems \<open>cs = []\<close> c show ?thesis by (simp add: pysplit_all_space)
      qed
    next
      case (Cons d ds)
      from Cons.IH Cons.prems Cons have ih: "pysplit (d # ds @ t) = pysplit (d # ds)" by simp
      show ?thesis
      proof (cases "is_space d")
        case True
        with ih c Cons show ?thesis by simp
      next
        case d: False
        have "pysplit (c # d # (ds @ t)) = (c # hd (pysplit (d # (ds @ t)))) # tl (pysplit (d # (ds @ t)))"
          using c d by (rule pysplit_word_step)
        moreover have "pysplit (c # d # ds) = (c # hd (pysplit (d # ds))) # tl (pysplit (d # ds))"
          using c d by (rule pysplit_word_step)
        ultimately show ?thesis using ih Cons by simp
      qed
    qed
  qed
qed

lemma rstrip_decomp: "\<exists>t. s = rstrip s @ t \<and> (\<forall>c \<in> set t. is_space c)"
proof -
  have "rev s = takeWhile is_space (rev s) @ dropWhile is_space (rev s)" by simp
  then have "s = rev (dropWhile is_space (rev s)) @ rev (takeWhile is_space (rev s))"
    by (metis rev_append rev_rev_ident)
  moreover have "\<forall>c \<in> set (rev (takeWhile is_space (rev s))). is_space c"
    by (auto dest: set_takeWhileD)
  ultimately show ?thesis unfolding rstrip_def by blast
qed

lemma pysplit_rstrip: "pysplit (rstrip s) = pysplit s"
proof -
  from rstrip_decomp obtain t where "s = rstrip s @ t" "\<forall>c \<in> set t. is_space c" by blast
  then show ?thesis using pysplit_append_spaces[of t "rstrip s"] by simp
qed

lemma pysplit_lstrip: "pysplit (lstrip s) = pysplit s"
  unfolding lstrip_def by (induction s) simp_all

lemma pysplit_strip: "pysplit (strip s) = pysplit s"
  by (simp add: strip_def pysplit_lstrip pysplit_rstrip)

lemma rstrip_id: "s = [] \<or> \<not> is_space (last s) \<Longrightarrow> rstrip s = s"
  unfolding rstrip_def by (cases s rule: rev_cases) auto

lemma lstrip_id: "s = [] \<or> \<not> is_space (hd s) \<Longrightarrow> lstrip s = s"
  unfolding lstrip_def by (cases s) auto

lemma rstrip_snoc_space: "is_space c \<Longrightarrow> rstrip (s @ [c]) = rstrip s"
  unfolding rstrip_def by simp

lemma rstrip_last: "rstrip s \<noteq> [] \<Longrightarrow> \<not> is_space (last (rstrip s))"
  unfolding rstrip_def
  by (metis (full_types) hd_dropWhile last_rev rev_is_Nil_conv)

lemma join_Cons_ne: "ws \<noteq> [] \<Longrightarrow> join_with sep (w # ws) = w @ sep @ join_with sep ws"
  by (cases ws) simp_all

lemma pysplit_join:
  "\<forall>w \<in> set ws. good_word w \<Longrightarrow> pysplit (join_with [32] ws) = ws"
proof (induction ws rule: induct_list012[case_names Nil One More])
  case Nil
  then show ?case by simp
next
  case (One w)
  then show ?case using pysplit_append_word[of w "[]"] by simp
next
  case (More w v ws)
  then have "pysplit (join_with [32] (v # ws)) = v # ws" by simp
  moreover have "pysplit (w @ ([32] @ join_with [32] (v # ws))) = w # pysplit ([32] @ join_with [32] (v # ws))"
    using More.prems by (intro pysplit_append_word) simp_all
  ultimately show ?case by simp
qed

lemma join_good_ends:
  "ws \<noteq> [] \<Longrightarrow> \<forall>w \<in> set ws. good_word w \<Longrightarrow>
   join_with [32] ws \<noteq> [] \<and> \<not> is_space (hd (join_with [32] ws)) \<and> \<not> is_space (last (join_with [32] ws))"
proof (induction ws rule: induct_list012[case_names Nil One More])
  case Nil
  then show ?case by simp
next
  case (One w)
  then have "w \<noteq> []" "hd w \<in> set w" "last w \<in> set w" by (auto simp: good_word_def)
  with One show ?case by (auto simp: good_word_def)
next
  case (More w v ws)
  then have ih: "join_with [32] (v # ws) \<noteq> [] \<and> \<not> is_space (last (join_with [32] (v # ws)))"
    by simp
  from More.prems have "good_word w" by simp
  then have "w \<noteq> []" "\<not> is_space (hd w)" by (cases w; simp add: good_word_def)+
  with ih show ?case by simp
qed

lemma strip_join:
  assumes "\<forall>w \<in> set ws. good_word w"
  shows "strip (join_with [32] ws) = join_with [32] ws"
proof (cases "ws = []")
  case True
  then show ?thesis by (simp add: strip_def lstrip_def rstrip_def)
next
  case False
  from join_good_ends[OF False assms] show ?thesis
    by (simp add: strip_def rstrip_id lstrip_id)
qed

lemma strip_join_space:
  assumes "\<forall>w \<in> set ws. good_word w"
  shows "strip (join_with [32] ws @ [32]) = join_with [32] ws"
proof -
  have "rstrip (join_with [32] ws @ [32]) = rstrip (join_with [32] ws)"
    by (rule rstrip_snoc_space) simp
  then have "strip (join_with [32] ws @ [32]) = strip (join_with [32] ws)"
    by (simp add: strip_def)
  with strip_join[OF assms] show ?thesis by simp
qed

lemma last_boundary_idx_space:
  "last_boundary_idx s = Some i \<Longrightarrow> 2 \<le> i \<and> i \<le> length s \<and> is_space (s ! (i - 1))"
proof (induction s arbitrary: i rule: last_boundary_idx.induct)
  case (1 a b cs)
  show ?case
  proof (cases "is_boundary_mark a \<and> is_space b")
    case True
    show ?thesis
    proof (cases "last_boundary_idx cs")
      case None
      with 1 True show ?thesis by simp
    next
      case (Some e)
      with 1 True have i: "i = e + 2" by simp
      from "1.IH"(1)[OF True Some] have "2 \<le> e \<and> e \<le> length cs \<and> is_space (cs ! (e - 1))" .
      with i show ?thesis by (simp add: nth_Cons')
    qed
  next
    case False
    with 1 obtain e where e: "last_boundary_idx (b # cs) = Some e" "i = Suc e" by auto
    from "1.IH"(2)[OF False e(1)] have "2 \<le> e \<and> e \<le> length (b # cs) \<and> is_space ((b # cs) ! (e - 1))" .
    with e show ?thesis by (cases e) auto
  qed
qed simp_all

lemma join_space_position:
  "\<forall>w \<in> set ws. good_word w \<Longrightarrow> j < length (join_with [32] ws) \<Longrightarrow>
   is_space (join_with [32] ws ! j) \<Longrightarrow>
   \<exists>k. 0 < k \<and> k < length ws \<and> take (Suc j) (join_with [32] ws) = join_with [32] (take k ws) @ [32]"
proof (induction ws arbitrary: j rule: induct_list012[case_names Nil One More])
  case Nil
  then show ?case by simp
next
  case (One w)
  then show ?case by (auto simp: good_word_def)
next
  case (More w v ws)
  let ?r = "join_with [32] (v # ws)"
  from More.prems(1) have gw: "good_word w" by simp
  have nsp: "j < length w \<Longrightarrow> \<not> is_space ((w @ [32] @ ?r) ! j)"
    using gw by (simp add: nth_append good_word_def)
  from More.prems(3) nsp have jw: "length w \<le> j" by (cases "j < length w") simp_all
  show ?case
  proof (cases "j = length w")
    case True
    then have "take (Suc j) (join_with [32] (w # v # ws)) = join_with [32] (take 1 (w # v # ws)) @ [32]"
      by simp
    then show ?thesis by (intro exI[of _ 1]) simp
  next
    case False
    define j' where "j' = j - length w - 1"
    from False jw have j': "j = length w + 1 + j'" by (simp add: j'_def)
    with More.prems have 1: "j' < length ?r" and 2: "is_space (?r ! j')"
      by (simp_all add: nth_append)
    from More.IH(2)[OF _ 1 2] More.prems(1) obtain k where
      k: "0 < k" "k < length (v # ws)" "take (Suc j') ?r = join_with [32] (take k (v # ws)) @ [32]"
      by auto
    from k(1) have tk: "take k (v # ws) \<noteq> []" by (cases k) simp_all
    have "take (Suc j) (join_with [32] (w # v # ws)) = w @ [32] @ take (Suc j') ?r"
      using j' by simp
    also have "\<dots> = join_with [32] (w # take k (v # ws)) @ [32]"
      using k(3) tk by (simp add: join_Cons_ne)
    also have "w # take k (v # ws) = take (Suc k) (w # v # ws)" by simp
    finally show ?thesis using k(2) by (intro exI[of _ "Suc k"]) simp
  qed
qed

lemma slice_to_take: "\<exists>n. slice_to m ws = take n ws"
  unfolding slice_to_def by auto

lemma slice_to_length: "0 \<le> m \<Longrightarrow> int (length (slice_to m ws)) \<le> m"
  unfolding slice_to_def by auto

lemma take_slice_to: "k \<le> length (slice_to m ws) \<Longrightarrow> take k (slice_to m ws) = take k ws"
proof -
  obtain n where n: "slice_to m ws = take n ws" using slice_to_take by blast
  assume "k \<le> length (slice_to m ws)"
  with n have "min k n = k" by simp
  with n show ?thesis by simp
qed

lemma truncate_shape:
  assumes over: "\<not> int (length (pysplit t)) \<le> m"
  shows "\<exists>k. k \<le> length (slice_to m (pysplit t)) \<and>
             truncate_to_words_sentence_aware t m = join_with [32] (take k (pysplit t))"
proof -
  let ?P = "slice_to m (pysplit t)"
  let ?prov = "join_with [32] ?P"
  obtain n where n: "?P = take n (pysplit t)" using slice_to_take by blast
  have good: "\<forall>w \<in> set ?P. good_word w"
    unfolding n by (auto dest: in_set_takeD pysplit_good)
  show ?thesis
  proof (cases "last_boundary_idx ?prov")
    case None
    with over have "truncate_to_words_sentence_aware t m = ?prov"
      by (simp add: truncate_to_words_sentence_aware_def Let_def strip_join[OF good])
    moreover have "take (length ?P) (pysplit t) = ?P"
      using take_slice_to[of "length ?P" m "pysplit t"] by simp
    ultimately show ?thesis by (intro exI[of _ "length ?P"]) simp
  next
    case (Some i)
    from last_boundary_idx_space[OF Some]
    have i: "2 \<le> i" "i \<le> length ?prov" "is_space (?prov ! (i - 1))" by auto
    then have "i - 1 < length ?prov" by simp
    from join_space_position[OF good this i(3)] i(1) obtain k where
      k: "0 < k" "k < length ?P" "take i ?prov = join_with [32] (take k ?P) @ [32]"
      by auto
    have goodk: "\<forall>w \<in> set (take k ?P). good_word w"
      using good by (auto dest: in_set_takeD)
    from over Some have "truncate_to_words_sentence_aware t m = strip (take i ?prov)"
      by (simp add: truncate_to_words_sentence_aware_def Let_def)
    also have "\<dots> = join_with [32] (take k ?P)"
      unfolding k(3) by (rule strip_join_space[OF goodk])
    also have "take k ?P = take k (pysplit t)"
      using k(2) by (intro take_slice_to) simp
    finally show ?thesis using k(2) by (intro exI[of _ k]) simp
  qed
qed


section \<open>Truncation\<close>




section \<open>The final script: cap and terminal boundary\<close>

lemma pysplit_last_nonspace: "s \<noteq> [] \<Longrightarrow> \<not> is_space (last s) \<Longrightarrow> pysplit s \<noteq> []"
proof (induction s)
  case Nil
  then show ?case by simp
next
  case (Cons c cs)
  show ?case
  proof (cases "is_space c")
    case True
    with Cons show ?thesis by (cases cs) auto
  next
    case False
    then show ?thesis by (rule pysplit_nonempty)
  qed
qed

lemma pysplit_snoc_nonspace:
  "s \<noteq> [] \<Longrightarrow> \<not> is_space (last s) \<Longrightarrow> \<not> is_space c \<Longrightarrow>
   pysplit (s @ [c]) = butlast (pysplit s) @ [last (pysplit s) @ [c]]"
proof (induction s)
  case Nil
  then show ?case by simp
next
  case (Cons x s)
  show ?case
  proof (cases s)
    case Nil
    with Cons.prems have x: "\<not> is_space x" by simp
    have "pysplit [x, c] = (x # hd (pysplit [c])) # tl (pysplit [c])"
      using x Cons.prems(3) by (rule pysplit_word_step)
    with Nil x Cons.prems(3) show ?thesis by simp
  next
    case (Cons y ys)
    with Cons.prems have s: "s \<noteq> []" "\<not> is_space (last s)" by simp_all
    from Cons.IH[OF s Cons.prems(3)]
    have ih: "pysplit (s @ [c]) = butlast (pysplit s) @ [last (pysplit s) @ [c]]" .
    have ne: "pysplit s \<noteq> []" using s by (rule pysplit_last_nonspace)
    show ?thesis
    proof (cases "is_space x")
      case True
      with ih show ?thesis by simp
    next
      case x: False
      show ?thesis
      proof (cases "is_space y")
        case True
        with ih ne x Cons show ?thesis by simp
      next
        case y: False
        have 1: "pysplit (x # y # (ys @ [c])) =
                 (x # hd (pysplit (y # (ys @ [c])))) # tl (pysplit (y # (ys @ [c])))"
          using x y by (rule pysplit_word_step)
        have 2: "pysplit (x # y # ys) = (x # hd (pysplit (y # ys))) # tl (pysplit (y # ys))"
          using x y by (rule pysplit_word_step)
        show ?thesis
        proof (cases "pysplit s")
          case Nil
          with ne show ?thesis by simp
        next
          case (Cons w ws)
          with ih 1 2 \<open>s = y # ys\<close> show ?thesis by (cases ws) simp_all
        qed
      qed
    qed
  qed
qed

lemma is_final_mark_not_space: "is_final_mark c \<Longrightarrow> \<not> is_space c"
  by (auto simp: is_final_mark_def is_space_def)

lemma ensure_sentence_boundary_final:
  "ensure_sentence_boundary t \<noteq> [] \<and> is_final_mark (last (ensure_sentence_boundary t))"
  by (simp add: ensure_sentence_boundary_def Let_def is_final_mark_def)

lemma pysplit_ensure:
  "pysplit (ensure_sentence_boundary t) = pysplit t \<or>
   pysplit (ensure_sentence_boundary t) = butlast (pysplit t) @ [last (pysplit t) @ [46]] \<and> pysplit t \<noteq> [] \<or>
   pysplit t = [] \<and> pysplit (ensure_sentence_boundary t) = [[46]]"
proof -
  let ?c = "rstrip t"
  have sp: "\<not> is_space 46" by (simp add: is_space_def)
  have pc: "pysplit ?c = pysplit t" by (rule pysplit_rstrip)
  show ?thesis
  proof (cases "?c \<noteq> [] \<and> is_final_mark (last ?c)")
    case True
    then show ?thesis by (simp add: ensure_sentence_boundary_def Let_def pc)
  next
    case False
    then have e: "ensure_sentence_boundary t = ?c @ [46]"
      by (auto simp: ensure_sentence_boundary_def Let_def)
    show ?thesis
    proof (cases "?c = []")
      case True
      with e pc sp show ?thesis by simp
    next
      case ne: False
      then have l: "\<not> is_space (last ?c)" by (rule rstrip_last)
      from pysplit_snoc_nonspace[OF ne l sp] pysplit_last_nonspace[OF ne l] e pc
      show ?thesis by simp
    qed
  qed
qed

lemma length_pysplit_ensure:
  "length (pysplit (ensure_sentence_boundary t)) \<le> max 1 (length (pysplit t))"
  using pysplit_ensure[of t] by (auto simp: Suc_leI)

lemma pysplit_truncate_prefix:
  "\<exists>k. k \<le> length (pysplit t) \<and> (0 \<le> m \<longrightarrow> int k \<le> m) \<and>
       pysplit (truncate_to_words_sentence_aware t m) = take k (pysplit t)"
proof (cases "int (length (pysplit t)) \<le> m")
  case True
  then have "truncate_to_words_sentence_aware t m = t"
    by (simp add: truncate_to_words_sentence_aware_def)
  with True show ?thesis by (intro exI[of _ "length (pysplit t)"]) simp
next
  case False
  from truncate_shape[OF False] obtain k where
    k: "k \<le> length (slice_to m (pysplit t))"
       "truncate_to_words_sentence_aware t m = join_with [32] (take k (pysplit t))" by blast
  have good: "\<forall>w \<in> set (take k (pysplit t)). good_word w"
    by (auto dest: in_set_takeD pysplit_good)
  have sl: "0 \<le> m \<longrightarrow> int (length (slice_to m (pysplit t))) \<le> m"
    by (auto simp: slice_to_def)
  have "pysplit (truncate_to_words_sentence_aware t m) = take k (pysplit t)"
    unfolding k(2) by (rule pysplit_join[OF good])
  moreover have "take k (pysplit t) = take (min k (length (pysplit t))) (pysplit t)"
    by (cases "k \<le> length (pysplit t)") (simp_all add: min_def)
  ultimately show ?thesis using k(1) sl
    by (intro exI[of _ "min k (length (pysplit t))"]) auto
qed

lemma length_pysplit_truncate:
  "0 \<le> m \<Longrightarrow> int (length (pysplit (truncate_to_words_sentence_aware t m))) \<le> m"
  using pysplit_truncate_prefix[of t m] by auto

lemma resolve_word_cap_range:
  "150 \<le> resolve_word_cap minutes requested \<and> resolve_word_cap minutes requested \<le> 5000"
  by (auto simp: resolve_word_cap_def default_target_words_def split: option.splits)

lemma obtain_response_Return:
  "obtain_response con svc a cap = (Return res, log) \<Longrightarrow> res = Failure blocked_by_filters_msg"
  by (auto simp: obtain_response_def generate_content_def
           split: outcome.splits if_splits sum.splits option.splits)

lemma gather_text_Return:
  assumes "gather_text con db svc a = (Return res, log)"
  shows "\<exists>m. res = Failure m"
proof -
  let ?cap = "resolve_word_cap (length_minutes a) (requested_word_cap a)"
  obtain st l where o: "obtain_response con svc a ?cap = (st, l)"
    by (cases "obtain_response con svc a ?cap")
  show ?thesis
  proof (cases st)
    case (Raise e)
    with assms o show ?thesis by (simp add: gather_text_def)
  next
    case (Return r)
    with o obtain_response_Return have "r = Failure blocked_by_filters_msg" by blast
    with assms o Return show ?thesis by (auto simp: gather_text_def)
  next
    case (Continue r)
    with assms o show ?thesis
      by (auto simp: gather_text_def Let_def split_beta split: if_splits option.splits)
  qed
qed

lemma generate_script_Success:
  assumes "generate_script con db svc a = (Inr (Success s n), log)"
  shows "\<exists>acc. gather_text con db svc a = (Continue acc, log) \<and>
           finish_script db (resolve_word_cap (length_minutes a) (requested_word_cap a)) acc =
           Success s n"
proof -
  from assms have b: "generate_script_body con db svc a = (Inr (Success s n), log)"
    by (auto simp: generate_script_def split: option.splits prod.splits sum.splits)
  obtain st l where g: "gather_text con db svc a = (st, l)"
    by (cases "gather_text con db svc a")
  show ?thesis
  proof (cases st)
    case (Raise e)
    with b g show ?thesis by (simp add: generate_script_body_def)
  next
    case (Return res)
    with g gather_text_Return obtain m where "res = Failure m" by blast
    with b g Return show ?thesis by (auto simp: generate_script_body_def)
  next
    case (Continue acc)
    with b g show ?thesis by (simp add: generate_script_body_def)
  qed
qed

lemma finish_script_shape:
  assumes "finish_script db cap acc = Success s n" and cap: "1 \<le> cap"
  shows "\<exists>k. s = ensure_sentence_boundary
                  (truncate_to_words_sentence_aware
                     (format_script db (clean_response_text acc)) cap) \<and>
          int (length (pysplit s)) \<le> cap \<and> n = length (pysplit s) \<and>
          pysplit (truncate_to_words_sentence_aware
                     (format_script db (clean_response_text acc)) cap) =
            take k (pysplit (format_script db (clean_response_text acc))) \<and>
          (pysplit s =
             pysplit (truncate_to_words_sentence_aware
                        (format_script db (clean_response_text acc)) cap) \<or>
           pysplit s =
             butlast (pysplit (truncate_to_words_sentence_aware
                        (format_script db (clean_response_text acc)) cap)) @
             [last (pysplit (truncate_to_words_sentence_aware
                        (format_script db (clean_response_text acc)) cap)) @ [46]] \<or>
           pysplit s = [[46]])"
proof -
  define t where "t = format_script db (clean_response_text acc)"
  let ?tr = "truncate_to_words_sentence_aware t cap"
  from assms(1) have s: "s = ensure_sentence_boundary ?tr" and n: "n = length (pysplit s)"
    by (auto simp: finish_script_def post_process_script_def Let_def t_def)
  from pysplit_truncate_prefix[of t cap] obtain k where
    k: "pysplit ?tr = take k (pysplit t)" by blast
  have "length (pysplit s) \<le> max 1 (length (pysplit ?tr))"
    unfolding s by (rule length_pysplit_ensure)
  moreover have "int (length (pysplit ?tr)) \<le> cap"
    using cap by (intro length_pysplit_truncate) simp
  ultimately have b: "int (length (pysplit s)) \<le> cap" using cap by simp
  from pysplit_ensure[of ?tr] have
    "pysplit s = pysplit ?tr \<or> pysplit s = butlast (pysplit ?tr) @ [last (pysplit ?tr) @ [46]] \<or>
     pysplit s = [[46]]"
    unfolding s by blast
  with s n k b show ?thesis unfolding t_def by blast
qed

text \<open>
  C1. In every success result of \<open>generate_script\<close> the script comes from the text that the
  call accumulated (\<open>gather_text\<close>): cleaned and reformatted, that text is the pre-truncation
  text; the script is this text cut to the resolved cap and closed by
  \<open>_ensure_sentence_boundary\<close>. Its word count is at most the resolved cap and is the count
  reported. The words of the truncated text are the first \<open>k\<close> words of the pre-truncation
  text, whole; and the words of the script are those words, with a full stop appended to the
  last one at most (or the single word \<open>.\<close> when nothing is left).
\<close>

theorem generate_script_within_cap:
  assumes "generate_script con db svc a = (Inr (Success s n), log)"
  shows "\<exists>acc k.
          gather_text con db svc a = (Continue acc, log) \<and>
          s = ensure_sentence_boundary
                (truncate_to_words_sentence_aware (format_script db (clean_response_text acc))
                   (resolve_word_cap (length_minutes a) (requested_word_cap a))) \<and>
          int (length (pysplit s)) \<le> resolve_word_cap (length_minutes a) (requested_word_cap a) \<and>
          n = length (pysplit s) \<and>
          pysplit (truncate_to_words_sentence_aware (format_script db (clean_response_text acc))
                     (resolve_word_cap (length_minutes a) (requested_word_cap a))) =
            take k (pysplit (format_script db (clean_response_text acc))) \<and>
          (pysplit s =
             pysplit (truncate_to_words_sentence_aware (format_script db (clean_response_text acc))
                        (resolve_word_cap (length_minutes a) (requested_word_cap a))) \<or>
           pysplit s =
             butlast (pysplit (truncate_to_words_sentence_aware
                        (format_script db (clean_response_text acc))
                        (resolve_word_cap (length_minutes a) (requested_word_cap a)))) @
             [last (pysplit (truncate_to_words_sentence_aware
                        (format_script db (clean_response_text acc))
                        (resolve_word_cap (length_minutes a) (requested_word_cap a)))) @ [46]] \<or>
           pysplit s = [[46]])"
proof -
  from generate_script_Success[OF assms] obtain acc where
    g: "gather_text con db svc a = (Continue acc, log)" and
    f: "finish_script db (resolve_word_cap (length_minutes a) (requested_word_cap a)) acc =
        Success s n"
    by blast
  have "1 \<le> resolve_word_cap (length_minutes a) (requested_word_cap a)"
    using resolve_word_cap_range[of "length_minutes a" "requested_word_cap a"] by simp
  from finish_script_shape[OF f this] g show ?thesis by blast
qed

theorem generate_script_within_cap_witness:
  "fst (generate_script utf8_console ascii_db
          (scripted [Returns (plain_response (repeated_sentences 38))])
          (example_args 1 (lit ''gadgets'') None)) =
     Inr (Success (rstrip (repeated_sentences 37)) 148) \<and>
   fst (gather_text utf8_console ascii_db
          (scripted [Returns (plain_response (repeated_sentences 38))])
          (example_args 1 (lit ''gadgets'') None)) = Continue (repeated_sentences 38) \<and>
   length (pysplit (repeated_sentences 38)) = 152 \<and>
   pysplit (rstrip (repeated_sentences 37)) =
     take 148 (pysplit (format_script ascii_db (clean_response_text (repeated_sentences 38)))) \<and>
   int (length (pysplit (rstrip (repeated_sentences 37)))) \<le> resolve_word_cap 1 None"
proof -
  let ?g = "generate_script utf8_console ascii_db
          (scripted [Returns (plain_response (repeated_sentences 38))])
          (example_args 1 (lit ''gadgets'') None)"
  have f: "fst ?g = Inr (Success (rstrip (repeated_sentences 37)) 148)" by code_simp
  then have r: "?g = (Inr (Success (rstrip (repeated_sentences 37)) 148), snd ?g)"
    by (metis prod.collapse)
  have 1: "fst (gather_text utf8_console ascii_db
          (scripted [Returns (plain_response (repeated_sentences 38))])
          (example_args 1 (lit ''gadgets'') None)) = Continue (repeated_sentences 38)"
    by code_simp
  have 2: "length (pysplit (repeated_sentences 38)) = 152"
    by code_simp
  have 3: "pysplit (rstrip (repeated_sentences 37)) =
     take 148 (pysplit (format_script ascii_db (clean_response_text (repeated_sentences 38))))"
    by code_simp
  from generate_script_within_cap[OF r]
  have 4: "int (length (pysplit (rstrip (repeated_sentences 37)))) \<le> resolve_word_cap 1 None"
    by (auto simp: example_args_def)
  from f 1 2 3 4 show ?thesis by blast
qed

text \<open>
  C5. The script of every success result is non-empty and ends with a full stop, an
  exclamation mark, a question mark or the danda; and \<open>_ensure_sentence_boundary\<close> returns the
  right-stripped text as it is when that ends with one of the four, and with exactly one full
  stop appended otherwise.
\<close>

theorem script_ends_with_terminator:
  "(generate_script con db svc a = (Inr (Success s n), log) \<longrightarrow>
      s \<noteq> [] \<and> (last s = 46 \<or> last s = 33 \<or> last s = 63 \<or> last s = 2404)) \<and>
   ensure_sentence_boundary t =
     (if rstrip t \<noteq> [] \<and>
         (last (rstrip t) = 46 \<or> last (rstrip t) = 33 \<or> last (rstrip t) = 63 \<or>
          last (rstrip t) = 2404)
      then rstrip t else rstrip t @ [46])"
proof (intro conjI impI)
  assume "generate_script con db svc a = (Inr (Success s n), log)"
  from generate_script_Success[OF this] obtain acc where
    "finish_script db (resolve_word_cap (length_minutes a) (requested_word_cap a)) acc = Success s n"
    by blast
  then obtain x where s: "s = ensure_sentence_boundary x"
    by (auto simp: finish_script_def post_process_script_def Let_def)
  from ensure_sentence_boundary_final[of x] show "s \<noteq> []" unfolding s by simp
  from ensure_sentence_boundary_final[of x]
  show "last s = 46 \<or> last s = 33 \<or> last s = 63 \<or> last s = 2404"
    unfolding s is_final_mark_def by simp
next
  show "ensure_sentence_boundary t =
     (if rstrip t \<noteq> [] \<and>
         (last (rstrip t) = 46 \<or> last (rstrip t) = 33 \<or> last (rstrip t) = 63 \<or>
          last (rstrip t) = 2404)
      then rstrip t else rstrip t @ [46])"
    by (simp add: ensure_sentence_boundary_def Let_def is_final_mark_def)
qed

theorem script_ends_with_terminator_witness:
  "fst (generate_script utf8_console ascii_db
          (scripted [Returns (plain_response (lit ''Namaste dosto''))])
          (example_args 2 (lit ''earbuds'') None)) = Inr (Success (lit ''Namaste dosto.'') 2) \<and>
   last (lit ''Namaste dosto.'') = 46 \<and>
   ensure_sentence_boundary (lit ''done!  '') = lit ''done!''"
proof -
  let ?g = "generate_script utf8_console ascii_db
          (scripted [Returns (plain_response (lit ''Namaste dosto''))])
          (example_args 2 (lit ''earbuds'') None)"
  have f: "fst ?g = Inr (Success (lit ''Namaste dosto.'') 2)" by code_simp
  then have r: "?g = (Inr (Success (lit ''Namaste dosto.'') 2), snd ?g)" by (metis prod.collapse)
  have l: "last (lit ''Namaste dosto.'') = 46" by code_simp
  have e: "rstrip (lit ''done!  '') = lit ''done!''" by code_simp
  have m: "last (lit ''done!'') = 33" by code_simp
  have ne: "lit ''done!'' \<noteq> []" by (simp add: lit_def)
  note t = script_ends_with_terminator[of utf8_console ascii_db
      "scripted [Returns (plain_response (lit ''Namaste dosto''))]"
      "example_args 2 (lit ''earbuds'') None" "lit ''Namaste dosto.''" 2 "snd ?g"
      "lit ''done!  ''"]
  from t have "ensure_sentence_boundary (lit ''done!  '') = lit ''done!''"
    unfolding e using ne m by simp
  with t r f l show ?thesis by simp
qed

section \<open>The request log\<close>

lemma obtain_response_log:
  "obtain_response con svc a cap = (st, log) \<Longrightarrow>
   log = [full_request a cap] \<or> log = [full_request a cap, simple_request a cap]"
  by (auto simp: obtain_response_def generate_content_def
           split: outcome.splits if_splits sum.splits option.splits)

lemma attempt_continuation_log:
  "snd (attempt_continuation svc log t cap tok) = log \<and>
     fst (attempt_continuation svc log t cap tok) = t \<and>
     cap - int (length (pysplit t)) < 50 \<or>
   (\<exists>p. snd (attempt_continuation svc log t cap tok) =
          log @ [\<lparr> req_prompt = Continuation_prompt p, max_output_tokens = tok \<rparr>])"
  by (auto simp: attempt_continuation_def generate_content_def Let_def)

lemma attempt_guided_log:
  "60 < cap - int (length (pysplit t)) \<Longrightarrow>
   snd (attempt_guided_continuation svc log t cap tok g) =
   log @ [\<lparr> req_prompt = Guided_prompt
                 (g @ budget_note (cap - int (length (pysplit t))) cap
                        (join_with [32] (last80 (pysplit t)))),
             max_output_tokens = tok \<rparr>]"
  by (simp add: attempt_guided_continuation_def generate_content_def Let_def)

lemma wants_guided_iff:
  "wants_guided db a cap acc \<longleftrightarrow>
   (\<exists>e. extract_expected_item_count db (topic a) (additional_context a) = Some e \<and>
        count_list_items db acc < e \<and> 60 < cap - int (length (pysplit acc)))"
  by (auto simp: wants_guided_def truthy_count_def split: option.splits)

lemma continuation_phase_log:
  fixes db svc log a cap t
  defines "acc1 \<equiv> fst (attempt_continuation svc log t cap (call_token_cap cap))"
  shows "\<exists>extra. snd (continuation_phase db svc log a cap t) = log @ extra \<and>
    (list_ex is_guided_request extra \<longleftrightarrow>
       needs_more db a cap t \<and>
       (\<exists>e. extract_expected_item_count db (topic a) (additional_context a) = Some e \<and>
            count_list_items db acc1 < e \<and> 60 < cap - int (length (pysplit acc1)))) \<and>
    (extra = [] \<or>
     (\<exists>p. extra = [\<lparr> req_prompt = Continuation_prompt p,
                      max_output_tokens = call_token_cap cap \<rparr>]) \<or>
     (\<exists>p q e. extract_expected_item_count db (topic a) (additional_context a) = Some e \<and>
        extra = [\<lparr> req_prompt = Continuation_prompt p, max_output_tokens = call_token_cap cap \<rparr>,
                 \<lparr> req_prompt = Guided_prompt
                     (lit ''Continue with items '' @ str_int (int (count_list_items db acc1) + 1) @
                      lit '' to '' @ str_int (int e) @
                      lit ''. Keep each item concise and balanced. Do not repeat. '' @ q),
                   max_output_tokens = call_token_cap cap \<rparr>]))"
proof (cases "needs_more db a cap t")
  case False
  then have "snd (continuation_phase db svc log a cap t) = log @ []"
    by (simp add: continuation_phase_def)
  with False show ?thesis by (intro exI[of _ "[]"]) simp
next
  case nm: True
  let ?tok = "call_token_cap cap"
  let ?log1 = "snd (attempt_continuation svc log t cap ?tok)"
  have ac: "attempt_continuation svc log t cap ?tok = (acc1, ?log1)"
    by (simp add: acc1_def)
  show ?thesis
  proof (cases "wants_guided db a cap acc1")
    case False
    with nm have r: "snd (continuation_phase db svc log a cap t) = ?log1"
      by (simp add: continuation_phase_def Let_def split_beta acc1_def)
    from False have ng: "\<not> (\<exists>e. extract_expected_item_count db (topic a) (additional_context a) = Some e \<and>
            count_list_items db acc1 < e \<and> 60 < cap - int (length (pysplit acc1)))"
      by (simp add: wants_guided_iff)
    from attempt_continuation_log[of svc log t cap ?tok]
    consider "?log1 = log" |
      p where "?log1 = log @ [\<lparr> req_prompt = Continuation_prompt p, max_output_tokens = ?tok \<rparr>]"
      by blast
    then show ?thesis
    proof cases
      case 1
      with r ng show ?thesis by (intro exI[of _ "[]"]) simp
    next
      case 2
      with r ng show ?thesis
        by (intro exI[of _ "[\<lparr> req_prompt = Continuation_prompt p, max_output_tokens = ?tok \<rparr>]"])
           (simp add: is_guided_request_def)
    qed
  next
    case wg: True
    then obtain e where e: "extract_expected_item_count db (topic a) (additional_context a) = Some e"
      "count_list_items db acc1 < e" "60 < cap - int (length (pysplit acc1))"
      by (auto simp: wants_guided_iff)
    let ?g = "guidance_text (count_list_items db acc1) e"
    from nm wg e(1) have r: "snd (continuation_phase db svc log a cap t) =
        snd (attempt_guided_continuation svc ?log1 acc1 cap ?tok ?g)"
      by (simp add: continuation_phase_def Let_def split_beta acc1_def)
    note g = attempt_guided_log[OF e(3), of svc ?log1 ?tok ?g]
    from attempt_continuation_log[of svc log t cap ?tok] e(3)
    obtain p where p: "?log1 = log @ [\<lparr> req_prompt = Continuation_prompt p, max_output_tokens = ?tok \<rparr>]"
      unfolding acc1_def by auto
    let ?q = "budget_note (cap - int (length (pysplit acc1))) cap (join_with [32] (last80 (pysplit acc1)))"
    let ?extra = "[\<lparr> req_prompt = Continuation_prompt p, max_output_tokens = ?tok \<rparr>,
                  \<lparr> req_prompt = Guided_prompt (?g @ ?q), max_output_tokens = ?tok \<rparr>]"
    have 1: "snd (continuation_phase db svc log a cap t) = log @ ?extra"
      using g unfolding r p by simp
    have 2: "list_ex is_guided_request ?extra" by (simp add: is_guided_request_def)
    have 3: "?g @ ?q = lit ''Continue with items '' @ str_int (int (count_list_items db acc1) + 1) @
                      lit '' to '' @ str_int (int e) @
                      lit ''. Keep each item concise and balanced. Do not repeat. '' @ ?q"
      by (simp add: guidance_text_def)
    show ?thesis
      apply (rule exI[of _ ?extra])
      apply (intro conjI)
        apply (rule 1)
      using 2 nm e apply blast
      apply (rule disjI2, rule disjI2)
      apply (rule exI[of _ p], rule exI[of _ ?q], rule exI[of _ e])
      using e(1) 3 apply simp
      done
  qed
qed

lemma gather_text_log:
  "\<exists>log0 extra. snd (gather_text con db svc a) = log0 @ extra \<and>
     (log0 = [full_request a (resolve_word_cap (length_minutes a) (requested_word_cap a))] \<or>
      log0 = [full_request a (resolve_word_cap (length_minutes a) (requested_word_cap a)),
              simple_request a (resolve_word_cap (length_minutes a) (requested_word_cap a))]) \<and>
     (extra = [] \<or>
      (\<exists>t. log0 @ extra =
         snd (continuation_phase db svc log0 a
                (resolve_word_cap (length_minutes a) (requested_word_cap a)) t)))"
proof -
  let ?cap = "resolve_word_cap (length_minutes a) (requested_word_cap a)"
  obtain st log0 where o: "obtain_response con svc a ?cap = (st, log0)"
    by (cases "obtain_response con svc a ?cap")
  from obtain_response_log[OF o]
  have l0: "log0 = [full_request a ?cap] \<or> log0 = [full_request a ?cap, simple_request a ?cap]" .
  have "snd (gather_text con db svc a) = log0 \<or>
        (\<exists>t. snd (gather_text con db svc a) = snd (continuation_phase db svc log0 a ?cap t))"
    using o by (cases st)
      (auto simp: gather_text_def Let_def split_beta split: option.splits)
  then show ?thesis
  proof
    assume "snd (gather_text con db svc a) = log0"
    with l0 show ?thesis by (intro exI[of _ log0] exI[of _ "[]"]) simp
  next
    assume "\<exists>t. snd (gather_text con db svc a) = snd (continuation_phase db svc log0 a ?cap t)"
    then obtain t where t: "snd (gather_text con db svc a) = snd (continuation_phase db svc log0 a ?cap t)"
      by blast
    from continuation_phase_log[of db svc log0 a ?cap t] obtain extra where
      ce: "snd (continuation_phase db svc log0 a ?cap t) = log0 @ extra" by blast
    from ce t have a: "snd (gather_text con db svc a) = log0 @ extra" by simp
    from ce have b: "\<exists>t. log0 @ extra = snd (continuation_phase db svc log0 a ?cap t)"
      by (intro exI[of _ t]) simp
    from a l0 b show ?thesis by blast
  qed
qed

lemma generate_script_log:
  "(\<exists>e. print_line con (opening_line a) = Some e \<and>
        generate_script con db svc a = (Inl e, [])) \<or>
   print_line con (opening_line a) = None \<and>
   snd (generate_script con db svc a) = snd (gather_text con db svc a)"
proof (cases "print_line con (opening_line a)")
  case None
  obtain st l where g: "gather_text con db svc a = (st, l)"
    by (cases "gather_text con db svc a")
  have "snd (generate_script con db svc a) = l"
    using None g
    by (cases st) (auto simp: generate_script_def generate_script_body_def split: option.splits)
  with None g show ?thesis by simp
next
  case (Some e)
  then show ?thesis by (simp add: generate_script_def)
qed

section \<open>Word-cap resolution\<close>

text \<open>
  C2 as stated fails: an override that is supplied but not positive is not clamped into
  [200, 5000]. With five minutes and the override 0 the cap is 750 and not 200, and the first
  request of the call carries 750.
\<close>

theorem word_cap_override_zero_counterexample:
  "resolve_word_cap 5 (Some 0) = 750 \<and>
   resolve_word_cap 5 (Some 0) \<noteq> max 200 (min 5000 0) \<and>
   req_prompt (hd (snd (generate_script utf8_console ascii_db (scripted [])
                          (example_args 5 (lit ''gadgets'') (Some 0))))) =
     Full_prompt (example_args 5 (lit ''gadgets'') (Some 0)) 750"
  by code_simp

text \<open>
  C2, amended. The resolved cap is the override clamped into [200, 5000] when the caller
  supplies a positive override, and \<open>min(2000, max(150, length_minutes * 150))\<close> when there is
  no override or the override is zero or negative; five minutes without override give 750 and
  twenty give 2000. The first request of the \<open>try\<close> block carries the resolved cap, and so
  does the first request of every call (a call whose opening line cannot be printed raises
  before the \<open>try\<close> block and makes no request).
\<close>

theorem resolve_word_cap_amended:
  "(0 < n \<longrightarrow> resolve_word_cap m (Some n) = max 200 (min 5000 n) \<and>
              200 \<le> resolve_word_cap m (Some n) \<and> resolve_word_cap m (Some n) \<le> 5000) \<and>
   (n \<le> 0 \<longrightarrow> resolve_word_cap m (Some n) = min 2000 (max 150 (m * 150))) \<and>
   resolve_word_cap m None = min 2000 (max 150 (m * 150)) \<and>
   resolve_word_cap 5 None = 750 \<and> resolve_word_cap 20 None = 2000 \<and>
   (\<exists>rest. snd (gather_text con db svc a) =
      \<lparr> req_prompt = Full_prompt a (resolve_word_cap (length_minutes a) (requested_word_cap a)),
        max_output_tokens =
          call_token_cap (resolve_word_cap (length_minutes a) (requested_word_cap a)) \<rparr> # rest) \<and>
   ((\<exists>e. print_line con (opening_line a) = Some e \<and>
         generate_script con db svc a = (Inl e, [])) \<or>
    (\<exists>rest. snd (generate_script con db svc a) =
       \<lparr> req_prompt = Full_prompt a (resolve_word_cap (length_minutes a) (requested_word_cap a)),
         max_output_tokens =
           call_token_cap (resolve_word_cap (length_minutes a) (requested_word_cap a)) \<rparr> # rest))"
proof -
  have 1: "0 < n \<longrightarrow> resolve_word_cap m (Some n) = max 200 (min 5000 n) \<and>
              200 \<le> resolve_word_cap m (Some n) \<and> resolve_word_cap m (Some n) \<le> 5000"
    by (auto simp: resolve_word_cap_def)
  have 2: "n \<le> 0 \<longrightarrow> resolve_word_cap m (Some n) = min 2000 (max 150 (m * 150))"
    by (auto simp: resolve_word_cap_def default_target_words_def)
  have 3: "resolve_word_cap m None = min 2000 (max 150 (m * 150))"
    by (simp add: resolve_word_cap_def default_target_words_def)
  have 4: "resolve_word_cap 5 None = 750" "resolve_word_cap 20 None = 2000"
    by (simp_all add: resolve_word_cap_def default_target_words_def)
  let ?cap = "resolve_word_cap (length_minutes a) (requested_word_cap a)"
  from gather_text_log[of con db svc a] obtain log0 extra where
    a: "snd (gather_text con db svc a) = log0 @ extra" and
    b: "log0 = [full_request a ?cap] \<or> log0 = [full_request a ?cap, simple_request a ?cap]"
    by blast
  then have "snd (gather_text con db svc a) = full_request a ?cap # (tl log0 @ extra)"
    by auto
  then have 6: "\<exists>rest. snd (gather_text con db svc a) =
      \<lparr> req_prompt = Full_prompt a ?cap, max_output_tokens = call_token_cap ?cap \<rparr> # rest"
    unfolding full_request_def by blast
  with generate_script_log[of con a db svc]
  have 5: "(\<exists>e. print_line con (opening_line a) = Some e \<and>
         generate_script con db svc a = (Inl e, [])) \<or>
    (\<exists>rest. snd (generate_script con db svc a) =
       \<lparr> req_prompt = Full_prompt a ?cap, max_output_tokens = call_token_cap ?cap \<rparr> # rest)"
    by auto
  from 1 2 3 4 5 6 show ?thesis by blast
qed

theorem resolve_word_cap_amended_witness:
  "(0::int) < 120 \<and> resolve_word_cap 7 (Some 120) = 200 \<and>
   (-3::int) \<le> 0 \<and> resolve_word_cap 7 (Some (-3)) = 1050 \<and>
   resolve_word_cap 7 (Some 9000) = 5000"
  using resolve_word_cap_amended[of 120 7] resolve_word_cap_amended[of "-3" 7]
        resolve_word_cap_amended[of 9000 7]
  by simp

section \<open>When the continuation step is entered\<close>




section \<open>The continuation calls\<close>

text \<open>
  C4 as stated fails at the boundary: the guided continuation needs more than 60 words of
  budget, not at least 60. One minute and the topic "Top 5 phones" give the cap 150 and the
  expected count 5; a first text of 50 words and a generic continuation of 40 words leave 90
  words, no list item and exactly 60 words of budget, and no guided request is made.
\<close>

theorem guided_at_sixty_counterexample:
  "extract_expected_item_count ascii_db (lit ''Top 5 phones'') None = Some 5 \<and>
   resolve_word_cap 1 None = 150 \<and>
   count_list_items ascii_db
     (fst (attempt_continuation
             (scripted [Returns (plain_response (repeated_words 50)),
                        Returns (plain_response (repeated_words 40))])
             [full_request (example_args 1 (lit ''Top 5 phones'') None) 150]
             (repeated_words 50) 150 (call_token_cap 150))) = 0 \<and>
   150 - int (length (pysplit
     (fst (attempt_continuation
             (scripted [Returns (plain_response (repeated_words 50)),
                        Returns (plain_response (repeated_words 40))])
             [full_request (example_args 1 (lit ''Top 5 phones'') None) 150]
             (repeated_words 50) 150 (call_token_cap 150))))) = 60 \<and>
   map is_guided_request
     (snd (generate_script utf8_console ascii_db
             (scripted [Returns (plain_response (repeated_words 50)),
                        Returns (plain_response (repeated_words 40))])
             (example_args 1 (lit ''Top 5 phones'') None))) = [False, False]"
  by code_simp

text \<open>
  C4, amended. A call of \<open>generate_script\<close> makes at most two continuation requests. The
  continuation step appends to the request log nothing, or one generic request, or one generic
  and then one guided request. The guided request is made exactly when the step was entered
  and, for the text after the generic continuation, the heuristic item count is below the
  detected expected count and more than 60 words of budget remain under the cap. Its prompt
  starts with the guidance that names the items from the current count plus one to the
  expected count and says not to repeat.
\<close>

theorem continuation_calls_bounded:
  "length (filter is_continuation_request (snd (generate_script con db svc a))) \<le> 2 \<and>
   (\<exists>extra. snd (continuation_phase db svc log a cap t) = log @ extra \<and>
      (list_ex is_guided_request extra \<longleftrightarrow>
         needs_more db a cap t \<and>
         (\<exists>e. extract_expected_item_count db (topic a) (additional_context a) = Some e \<and>
              count_list_items db
                (fst (attempt_continuation svc log t cap (call_token_cap cap))) < e \<and>
              60 < cap - int (length (pysplit
                (fst (attempt_continuation svc log t cap (call_token_cap cap))))))) \<and>
      (extra = [] \<or>
       (\<exists>p. extra = [\<lparr> req_prompt = Continuation_prompt p,
                        max_output_tokens = call_token_cap cap \<rparr>]) \<or>
       (\<exists>p q e. extract_expected_item_count db (topic a) (additional_context a) = Some e \<and>
          extra = [\<lparr> req_prompt = Continuation_prompt p, max_output_tokens = call_token_cap cap \<rparr>,
                   \<lparr> req_prompt = Guided_prompt
                       (lit ''Continue with items '' @
                        str_int (int (count_list_items db
                          (fst (attempt_continuation svc log t cap (call_token_cap cap)))) + 1) @
                        lit '' to '' @ str_int (int e) @
                        lit ''. Keep each item concise and balanced. Do not repeat. '' @ q),
                     max_output_tokens = call_token_cap cap \<rparr>])))"
proof (rule conjI)
  let ?cap = "resolve_word_cap (length_minutes a) (requested_word_cap a)"
  from gather_text_log[of con db svc a] obtain log0 extra where
    g: "snd (gather_text con db svc a) = log0 @ extra" and
    l0: "log0 = [full_request a ?cap] \<or> log0 = [full_request a ?cap, simple_request a ?cap]" and
    ex: "extra = [] \<or> (\<exists>t. log0 @ extra = snd (continuation_phase db svc log0 a ?cap t))"
    by blast
  from l0 have f0: "filter is_continuation_request log0 = []"
    by (auto simp: is_continuation_request_def full_request_def simple_request_def)
  have "length extra \<le> 2"
  proof (cases "extra = []")
    case True
    then show ?thesis by simp
  next
    case False
    with ex obtain t where t: "log0 @ extra = snd (continuation_phase db svc log0 a ?cap t)"
      by blast
    from continuation_phase_log[of db svc log0 a ?cap t] t show ?thesis by auto
  qed
  moreover have "length (filter is_continuation_request extra) \<le> length extra" by simp
  ultimately have "length (filter is_continuation_request extra) \<le> 2" by linarith
  then have "length (filter is_continuation_request (snd (gather_text con db svc a))) \<le> 2"
    unfolding g using f0 by simp
  with generate_script_log[of con a db svc]
  show "length (filter is_continuation_request (snd (generate_script con db svc a))) \<le> 2"
    by auto
next
  show "\<exists>extra. snd (continuation_phase db svc log a cap t) = log @ extra \<and>
      (list_ex is_guided_request extra \<longleftrightarrow>
         needs_more db a cap t \<and>
         (\<exists>e. extract_expected_item_count db (topic a) (additional_context a) = Some e \<and>
              count_list_items db
                (fst (attempt_continuation svc log t cap (call_token_cap cap))) < e \<and>
              60 < cap - int (length (pysplit
                (fst (attempt_continuation svc log t cap (call_token_cap cap))))))) \<and>
      (extra = [] \<or>
       (\<exists>p. extra = [\<lparr> req_prompt = Continuation_prompt p,
                        max_output_tokens = call_token_cap cap \<rparr>]) \<or>
       (\<exists>p q e. extract_expected_item_count db (topic a) (additional_context a) = Some e \<and>
          extra = [\<lparr> req_prompt = Continuation_prompt p, max_output_tokens = call_token_cap cap \<rparr>,
                   \<lparr> req_prompt = Guided_prompt
                       (lit ''Continue with items '' @
                        str_int (int (count_list_items db
                          (fst (attempt_continuation svc log t cap (call_token_cap cap)))) + 1) @
                        lit '' to '' @ str_int (int e) @
                        lit ''. Keep each item concise and balanced. Do not repeat. '' @ q),
                     max_output_tokens = call_token_cap cap \<rparr>]))"
    by (rule continuation_phase_log)
qed

theorem continuation_calls_bounded_witness:
  "map is_guided_request
     (snd (generate_script utf8_console ascii_db
             (scripted [Returns (plain_response (repeated_words 50)),
                        Returns (plain_response (repeated_words 39))])
             (example_args 1 (lit ''Top 5 phones'') None))) = [False, False, True] \<and>
   length (filter is_continuation_request
     (snd (generate_script utf8_console ascii_db
             (scripted [Returns (plain_response (repeated_words 50)),
                        Returns (plain_response (repeated_words 39))])
             (example_args 1 (lit ''Top 5 phones'') None)))) \<le> 2"
proof -
  have "map is_guided_request
     (snd (generate_script utf8_console ascii_db
             (scripted [Returns (plain_response (repeated_words 50)),
                        Returns (plain_response (repeated_words 39))])
             (example_args 1 (lit ''Top 5 phones'') None))) = [False, False, True]"
    by code_simp
  with continuation_calls_bounded[of utf8_console ascii_db
         "scripted [Returns (plain_response (repeated_words 50)),
                    Returns (plain_response (repeated_words 39))]"
         "example_args 1 (lit ''Top 5 phones'') None"]
  show ?thesis by blast
qed

section \<open>Safety ratings\<close>

text \<open>
  C6. The library of the service gives a rating's probability as a member of its
  enumeration, and no member equals the string \<open>'HIGH'\<close> or \<open>'MEDIUM'\<close>: the test of
  \<open>generate_script\<close> blocks no such rating, and a first response whose first candidate is
  rated HIGH comes back as a success. The responses of the continuation calls are not
  examined at all: a continuation response rated HIGH, here even as the string that the test
  would catch, is appended and the call succeeds.
\<close>

theorem high_rating_returned_as_success:
  "\<not> is_blocking \<lparr> category = c, probability = Probability_enum p \<rparr> \<and>
   fst (generate_script utf8_console ascii_db
          (scripted [Returns (rated_response (Probability_enum HIGH) (lit ''hi there''))])
          (example_args 1 (lit ''gadgets'') None)) = Inr (Success (lit ''hi there.'') 2) \<and>
   fst (generate_script utf8_console ascii_db
          (scripted [Returns (plain_response (lit ''hi there'')),
                     Returns (rated_response (Probability_str (lit ''HIGH'')) (lit ''more text''))])
          (example_args 1 (lit ''gadgets'') None)) =
     Inr (Success (lit ''hi there'' @ [10] @ lit ''more text.'') 4)"
proof -
  have 1: "\<not> is_blocking \<lparr> category = c, probability = Probability_enum p \<rparr>"
    by (simp add: is_blocking_def)
  have 2: "fst (generate_script utf8_console ascii_db
          (scripted [Returns (rated_response (Probability_enum HIGH) (lit ''hi there''))])
          (example_args 1 (lit ''gadgets'') None)) = Inr (Success (lit ''hi there.'') 2)"
    by code_simp
  have 3: "fst (generate_script utf8_console ascii_db
          (scripted [Returns (plain_response (lit ''hi there'')),
                     Returns (rated_response (Probability_str (lit ''HIGH'')) (lit ''more text''))])
          (example_args 1 (lit ''gadgets'') None)) =
     Inr (Success (lit ''hi there'' @ [10] @ lit ''more text.'') 4)"
    by code_simp
  from 1 2 3 show ?thesis by blast
qed

section \<open>Exceptions\<close>




text \<open>
  A topic with a lone surrogate cannot be printed to a UTF-8 console: the opening line, which
  is printed before the \<open>try\<close> block, raises, and the exception leaves \<open>generate_script\<close>.
\<close>

lemma opening_line_raises_example:
  "generate_script utf8_console ascii_db (scripted []) (example_args 1 [55296] None) =
     (Inl (Exn (lit ''UnicodeEncodeError: surrogates not allowed'')), [])"
  by code_simp




section \<open>Cleaning twice\<close>

text \<open>
  C8. The cleaning step is not idempotent on text with bare carriage returns: the blank lines
  are collapsed before the line endings are normalised, so three carriage returns become
  three newlines in the first pass, and the second pass collapses them to two.
\<close>

theorem clean_response_text_twice_differs:
  "clean_response_text [97, 13, 13, 13, 98] = [97, 10, 10, 10, 98] \<and>
   clean_response_text (clean_response_text [97, 13, 13, 13, 98]) = [97, 10, 10, 98]"
  by code_simp

section \<open>Saving and reloading the style profiles\<close>

lemma sequence_options_None: "None \<in> set xs \<Longrightarrow> sequence_options xs = None"
  by (induction xs) (auto split: option.splits)

lemma json_encode_analysis_value:
  "transcripts an \<noteq> [] \<Longrightarrow> json_encode (analysis_value an) = None"
proof -
  assume "transcripts an \<noteq> []"
  then obtain t ts where t: "transcripts an = t # ts" by (cases "transcripts an") auto
  have "json_encode (PyList (map PyObject (transcripts an))) = None"
    unfolding t by simp
  then show ?thesis
    unfolding analysis_value_def by (simp add: sequence_options_None)
qed

lemma json_encode_styles_value:
  assumes "styles \<noteq> []" and "\<forall>(c, an) \<in> set styles. transcripts an \<noteq> []"
  shows "json_encode (styles_value styles) = None"
proof -
  from assms(1) obtain c an rest where s: "styles = (c, an) # rest" by (cases styles) auto
  with assms(2) have "json_encode (analysis_value an) = None"
    by (auto intro: json_encode_analysis_value)
  then show ?thesis
    unfolding styles_value_def s by (simp add: sequence_options_None)
qed

lemma transcripts_add_transcript: "transcripts (add_transcript ops an t) \<noteq> []"
  by (simp add: add_transcript_def)

lemma update_creator_transcripts:
  assumes "\<forall>(c, an) \<in> set acc. transcripts an \<noteq> []" and "\<And>an. transcripts (f an) \<noteq> []"
  shows "update_creator k f fresh acc \<noteq> [] \<and>
         (\<forall>(c, an) \<in> set (update_creator k f fresh acc). transcripts an \<noteq> [])"
  using assms by (induction acc) (auto split: if_splits)

lemma collect_transcripts_transcripts:
  assumes "\<forall>(c, an) \<in> set acc. transcripts an \<noteq> []" and "acc \<noteq> [] \<or> ts \<noteq> []"
  shows "collect_transcripts ops acc ts \<noteq> [] \<and>
         (\<forall>(c, an) \<in> set (collect_transcripts ops acc ts). transcripts an \<noteq> [])"
  using assms
proof (induction ts arbitrary: acc)
  case Nil
  then show ?case by simp
next
  case (Cons t ts)
  let ?acc = "update_creator (uploader t) (\<lambda>an. add_transcript ops an t) (new_analysis ops) acc"
  from update_creator_transcripts[OF Cons.prems(1), of "\<lambda>an. add_transcript ops an t"]
       transcripts_add_transcript
  have "?acc \<noteq> []" "\<forall>(c, an) \<in> set ?acc. transcripts an \<noteq> []" by blast+
  from Cons.IH[OF this(2)] this(1) show ?case by simp
qed

lemma analyze_creator_styles_transcripts:
  "analyze_creator_styles ops (t # ts) \<noteq> [] \<and>
   (\<forall>(c, an) \<in> set (analyze_creator_styles ops (t # ts)). transcripts an \<noteq> [])"
proof -
  have "collect_transcripts ops [] (t # ts) \<noteq> [] \<and>
         (\<forall>(c, an) \<in> set (collect_transcripts ops [] (t # ts)). transcripts an \<noteq> [])"
    by (rule collect_transcripts_transcripts) simp_all
  then show ?thesis
    unfolding analyze_creator_styles_def by (auto simp: normalize_analysis_def Let_def)
qed

text \<open>
  C9. Every profile mapping that \<open>_analyze_creator_styles\<close> produces from at least one
  transcript keeps the transcript objects under the key \<open>transcripts\<close>, so
  \<open>save_training_context\<close> raises \<open>TypeError\<close> and leaves no complete document, and
  \<open>load_training_context\<close> on that file returns \<open>False\<close>: the round trip does not succeed.
\<close>

theorem save_training_context_raises:
  "save_training_context (trained_state ops (t # ts) st) = (Some TypeError, None) \<and>
   fst (load_training_context (snd (save_training_context (trained_state ops (t # ts) st))) st') = False"
proof -
  from analyze_creator_styles_transcripts[of ops t ts]
  have "json_encode (styles_value (analyze_creator_styles ops (t # ts))) = None"
    by (intro json_encode_styles_value) blast+
  then have "save_training_context (trained_state ops (t # ts) st) = (Some TypeError, None)"
    by (simp add: save_training_context_def trained_state_def sequence_options_None)
  then show ?thesis by (simp add: load_training_context_def)
qed

end
